theory Spec2Isabelle
  imports Main "HOL-Library.AList"
begin

text \<open>
  A shallow embedding of \<^verbatim>\<open>lib/dog-tag.js\<close>: the secret document, the tag search with
  its disambiguation step, and the four operations \<^verbatim>\<open>list\<close>, \<^verbatim>\<open>add\<close>, \<^verbatim>\<open>delete\<close> and
  \<^verbatim>\<open>update\<close>. The replication engine (Automerge), the fuzzy matcher (Fuse), the prompts
  (Enquirer), the decryption and the clock are capabilities of an environment record.
\<close>

section \<open>Tags as strings: \<open>slugifyTags\<close> and \<open>getTagsFromString\<close>\<close>

text \<open>
  A JavaScript string is modelled as a HOL \<open>string\<close>; a character stands for the code
  unit with the same number, so the model covers the code units below 256. The regular
  expression class \<^verbatim>\<open>\s\<close> contains, below 256, the code units 9 to 13, 32 and 160;
  the separator class \<^verbatim>\<open>[\s,]\<close> adds the comma.
\<close>

definition isSeparator :: "char \<Rightarrow> bool" where
  "isSeparator c \<longleftrightarrow>
     c \<in> set [CHR 0x09, CHR 0x0A, CHR 0x0B, CHR 0x0C, CHR 0x0D, CHR 0x20, CHR 0xA0, CHR '','']"

text \<open>
  \<^verbatim>\<open>str.split(/[\s,]+/g)\<close>. The scan of \<open>String.prototype.split\<close> walks through the string;
  at a position where the expression matches, the match is greedy (the whole run of
  separators), the piece read so far is emitted and the scan goes on behind the run. The
  piece that is open at the end of the string is always emitted, also when it is empty.
  \<open>cur\<close> is the piece read so far.
\<close>

function splitSeparators :: "string \<Rightarrow> string \<Rightarrow> string list" where
  "splitSeparators cur [] = [cur]"
| "splitSeparators cur (c # cs) =
     (if isSeparator c then cur # splitSeparators [] (dropWhile isSeparator cs)
      else splitSeparators (cur @ [c]) cs)"
  by pat_completeness auto
termination
  by (relation "measure (\<lambda>(cur, s). length s)")
     (auto simp: length_dropWhile_le le_imp_less_Suc)

text \<open>\<^verbatim>\<open>internals.getTagsFromString = (str) => str.split(/[\s,]+/g)\<close>\<close>

definition getTagsFromString :: "string \<Rightarrow> string list" where
  "getTagsFromString str = splitSeparators [] str"

text \<open>\<^verbatim>\<open>Array.prototype.join(sep)\<close> on an array of strings.\<close>

fun join :: "string \<Rightarrow> string list \<Rightarrow> string" where
  "join sep [] = []"
| "join sep [t] = t"
| "join sep (t # u # us) = t @ sep @ join sep (u # us)"

text \<open>\<^verbatim>\<open>tags.join(', ')\<close> on an array of strings.\<close>

definition joinTags :: "string list \<Rightarrow> string" where
  "joinTags tags = join '', '' tags"

section \<open>JavaScript values, objects and errors\<close>

text \<open>
  The values stored in a secret entry: a string or an array of strings. \<open>None\<close> of type
  \<open>jsval option\<close> is \<^verbatim>\<open>undefined\<close>. An object is the list of its own enumerable
  properties in insertion order, as \<^verbatim>\<open>Object.entries\<close> returns them; in an object the
  keys are distinct.
\<close>

datatype jsval = JStr string | JArr "string list"

type_synonym jsobj = "(string \<times> jsval) list"

definition isObject :: "jsobj \<Rightarrow> bool" where
  "isObject obj \<longleftrightarrow> distinct (map fst obj)"

text \<open>\<^verbatim>\<open>obj.key\<close>\<close>

definition getProp :: "jsobj \<Rightarrow> string \<Rightarrow> jsval option" where
  "getProp obj key = map_of obj key"

text \<open>
  \<^verbatim>\<open>Object.assign(target, source)\<close>: every property of the source is written to the
  target, in place where the key exists and at the end where it is new.
\<close>

definition objectAssign :: "jsobj \<Rightarrow> jsobj \<Rightarrow> jsobj" where
  "objectAssign target source = fold (\<lambda>(key, v) acc. AList.update key v acc) source target"

text \<open>The conversion of a template literal, \<^verbatim>\<open>`${v}`\<close>.\<close>

fun toString :: "jsval option \<Rightarrow> string" where
  "toString None = ''undefined''"
| "toString (Some (JStr s)) = s"
| "toString (Some (JArr xs)) = join '','' xs"

text \<open>
  What is thrown or put into \<^verbatim>\<open>{ error }\<close>: an \<^verbatim>\<open>Error\<close> object with its message,
  a \<^verbatim>\<open>TypeError\<close>, a \<^verbatim>\<open>RangeError\<close>, a failure of the environment (decryption, file
  system, engine), or a bare string. \<^verbatim>\<open>Bounce.isSystem\<close> holds of the native error
  classes such as \<^verbatim>\<open>TypeError\<close> and \<^verbatim>\<open>RangeError\<close> and of the failures of the
  environment.
\<close>

datatype jserror =
  Error string | TypeError string | RangeError string | SystemError string | Message string

fun isSystem :: "jserror \<Rightarrow> bool" where
  "isSystem (Error _) = False"
| "isSystem (TypeError _) = True"
| "isSystem (RangeError _) = True"
| "isSystem (SystemError _) = True"
| "isSystem (Message _) = False"

text \<open>The two shapes every function of the module returns: \<^verbatim>\<open>{ output }\<close> and \<^verbatim>\<open>{ error }\<close>.\<close>

datatype 'a result = Output 'a | Failure jserror

text \<open>The double quote and the single quote, for the messages.\<close>

definition dq :: string where
  "dq = [CHR 0x22]"

definition sq :: string where
  "sq = [CHR 0x27]"

text \<open>
  \<^verbatim>\<open>internals.slugifyTags = (tags) => tags.join(', ')\<close>, applied to whatever the \<^verbatim>\<open>tags\<close>
  property holds: a string has no \<^verbatim>\<open>join\<close> method and \<^verbatim>\<open>undefined\<close> has no
  properties, and both calls throw a \<^verbatim>\<open>TypeError\<close>.
\<close>

fun slugifyTags :: "jsval option \<Rightarrow> jserror + string" where
  "slugifyTags (Some (JArr tags)) = Inr (joinTags tags)"
| "slugifyTags (Some (JStr s)) = Inl (TypeError ''tags.join is not a function'')"
| "slugifyTags None = Inl (TypeError ''Cannot read property join of undefined'')"

section \<open>The document\<close>

text \<open>
  The document as \<^verbatim>\<open>exports.init\<close> creates it, together with the change history the
  replication engine keeps for it (the messages of \<^verbatim>\<open>Automerge.getHistory\<close>).
\<close>

record doc =
  isDoggo :: bool
  docId :: string
  version :: nat
  secrets :: "jsobj list"
  doggoVersion :: string
  updatedAt :: nat
  history :: "string list"

text \<open>
  \<^verbatim>\<open>Automerge.change(doc, message, callback)\<close>: the callback edits a draft of the
  document, and the new document has one more change in its history. When the callback
  throws, the change throws and there is no new document.
\<close>

definition automergeChange :: "doc \<Rightarrow> string \<Rightarrow> (doc \<Rightarrow> jserror + doc) \<Rightarrow> jserror + doc" where
  "automergeChange d message callback =
     (case callback d of
        Inl e \<Rightarrow> Inl e
      | Inr draft \<Rightarrow> Inr (draft\<lparr>history := history d @ [message]\<rparr>))"

text \<open>\<^verbatim>\<open>findIndex\<close> on a list; \<open>- 1\<close> when no element satisfies the predicate.\<close>

fun findIndex :: "('a \<Rightarrow> bool) \<Rightarrow> 'a list \<Rightarrow> int" where
  "findIndex p [] = - 1"
| "findIndex p (x # xs) =
     (if p x then 0 else (let i = findIndex p xs in if i < 0 then - 1 else i + 1))"

text \<open>
  \<^verbatim>\<open>draft.secrets.splice(start, deleteCount, ...items)\<close>. In the draft, \<^verbatim>\<open>secrets\<close> is
  the list proxy of the engine, not an array: its \<^verbatim>\<open>splice\<close> reads the start as a list
  index and throws a \<^verbatim>\<open>RangeError\<close> on a negative one, which is what \<^verbatim>\<open>findIndex\<close> gives
  when no entry has the id. From a valid start it removes \<open>deleteCount\<close> elements and
  puts the items in their place.
\<close>

definition automergeSplice :: "'a list \<Rightarrow> int \<Rightarrow> nat \<Rightarrow> 'a list \<Rightarrow> jserror + 'a list" where
  "automergeSplice xs start deleteCount items =
     (if start < 0 then Inl (RangeError ''A list index must be positive'')
      else Inr (take (nat start) xs @ items @ drop (nat start + deleteCount) xs))"

text \<open>
  The callbacks of the three mutations. A callback that throws leaves no draft; the
  callback of add cannot throw.
\<close>

definition addDraft :: "doc \<Rightarrow> string list \<Rightarrow> string \<Rightarrow> string \<Rightarrow> string \<Rightarrow> doc \<Rightarrow> jserror + doc" where
  "addDraft instance tags secret uuid pkgVersion draft =
     Inr (draft\<lparr>secrets := secrets draft @ [[(''tags'', JArr tags), (''secret'', JStr secret), (''id'', JStr uuid)]],
                version := length (history instance) + 1,
                doggoVersion := pkgVersion\<rparr>)"

definition deleteDraft :: "doc \<Rightarrow> jsobj \<Rightarrow> string \<Rightarrow> doc \<Rightarrow> jserror + doc" where
  "deleteDraft instance toDelete pkgVersion draft =
     (case automergeSplice (secrets draft)
             (findIndex (\<lambda>item. getProp item ''id'' = getProp toDelete ''id'') (secrets draft)) 1 [] of
        Inl e \<Rightarrow> Inl e
      | Inr spliced \<Rightarrow>
          Inr (draft\<lparr>secrets := spliced,
                     version := length (history instance) + 1,
                     doggoVersion := pkgVersion\<rparr>))"

definition updateDraft :: "doc \<Rightarrow> jsobj \<Rightarrow> jsobj \<Rightarrow> string \<Rightarrow> nat \<Rightarrow> doc \<Rightarrow> jserror + doc" where
  "updateDraft instance toUpdate edited pkgVersion now draft =
     (case automergeSplice (secrets draft)
             (findIndex (\<lambda>item. getProp item ''id'' = getProp toUpdate ''id'') (secrets draft)) 1
             [objectAssign (objectAssign [] toUpdate) edited] of
        Inl e \<Rightarrow> Inl e
      | Inr spliced \<Rightarrow>
          Inr (draft\<lparr>secrets := spliced,
                     version := length (history instance) + 1,
                     doggoVersion := pkgVersion,
                     updatedAt := now\<rparr>))"

text \<open>\<^verbatim>\<open>exports.init\<close>: the first change of an empty engine document.\<close>

definition init :: "string \<Rightarrow> string \<Rightarrow> nat \<Rightarrow> doc" where
  "init uuid pkgVersion now =
     \<lparr>isDoggo = True, docId = uuid, version = 1, secrets = [], doggoVersion = pkgVersion,
      updatedAt = now, history = [''Initialize'']\<rparr>"

section \<open>Effects: prompts, changes and thrown errors\<close>

text \<open>
  What an operation does besides returning: the prompts it shows and the changes it
  commits through the engine, in the order of their occurrence. A change whose callback
  throws is not committed.
\<close>

datatype event =
  Prompt string
| Confirm string
| Select "string list"
| Form string "(string \<times> jsval) list"
| Change string

text \<open>
  An asynchronous computation: the events it caused, and either the thrown error
  (\<open>Inl\<close>) or the returned value (\<open>Inr\<close>).
\<close>

type_synonym 'a io = "event list \<times> (jserror + 'a)"

definition ret :: "'a \<Rightarrow> 'a io" where
  "ret x = ([], Inr x)"

definition throw :: "jserror \<Rightarrow> 'a io" where
  "throw e = ([], Inl e)"

definition emit :: "event \<Rightarrow> 'a \<Rightarrow> 'a io" where
  "emit ev x = ([ev], Inr x)"

definition lift :: "jserror + 'a \<Rightarrow> 'a io" where
  "lift r = ([], r)"

text \<open>\<^verbatim>\<open>const x = await m; ...\<close>: a thrown error ends the sequence.\<close>

definition andThen :: "'a io \<Rightarrow> ('a \<Rightarrow> 'b io) \<Rightarrow> 'b io" where
  "andThen m f =
     (case m of
        (tr, Inl e) \<Rightarrow> (tr, Inl e)
      | (tr, Inr x) \<Rightarrow> (case f x of (tr', r) \<Rightarrow> (tr @ tr', r)))"

text \<open>
  \<^verbatim>\<open>try { ... } catch (error) { Bounce.rethrow(error, 'system'); return { error }; }\<close>
\<close>

definition tryCatch :: "'a result io \<Rightarrow> 'a result io" where
  "tryCatch m =
     (case m of
        (tr, Inl error) \<Rightarrow> if isSystem error then (tr, Inl error) else (tr, Inr (Failure error))
      | (tr, Inr r) \<Rightarrow> (tr, Inr r))"

text \<open>\<^verbatim>\<open>array.map(f)\<close> with a callback that may throw: the first throw ends the loop.\<close>

fun mapThrowing :: "('a \<Rightarrow> jserror + 'b) \<Rightarrow> 'a list \<Rightarrow> jserror + 'b list" where
  "mapThrowing f [] = Inr []"
| "mapThrowing f (x # xs) =
     (case f x of
        Inl e \<Rightarrow> Inl e
      | Inr y \<Rightarrow> (case mapThrowing f xs of Inl e \<Rightarrow> Inl e | Inr ys \<Rightarrow> Inr (y # ys)))"

section \<open>The environment\<close>

text \<open>
  The capabilities the module calls: \<^verbatim>\<open>Helpers.getDecrypted\<close>, \<^verbatim>\<open>Automerge.load\<close>, the
  search of \<^verbatim>\<open>Fuse\<close> with the option \<^verbatim>\<open>keys: ['tags']\<close> (it returns the matching items
  in ranked order), the prompts of Enquirer and of \<^verbatim>\<open>Helpers.prompt\<close>, \<^verbatim>\<open>Uuid.v4\<close>,
  \<^verbatim>\<open>Date.now\<close> and the version of the \<^verbatim>\<open>doggo\<close> package. A prompt is answered by the
  user according to what it shows. The answer to a form prompt is the set of fields the
  user supplies, by name.
\<close>

record env =
  getDecrypted :: "string option \<Rightarrow> jserror + string"
  automergeLoad :: "string \<Rightarrow> jserror + doc"
  fuse :: "jsobj list \<Rightarrow> string \<Rightarrow> jsobj list"
  promptAnswer :: "string \<Rightarrow> string"
  confirmAnswer :: "string \<Rightarrow> bool"
  selectAnswer :: "string list \<Rightarrow> string"
  formAnswer :: "string \<Rightarrow> (string \<times> jsval) list \<Rightarrow> (string \<times> string) list"
  uuidV4 :: string
  dateNow :: nat
  packageVersion :: string

text \<open>\<^verbatim>\<open>Helpers.prompt(message)\<close>\<close>

definition helpersPrompt :: "env \<Rightarrow> string \<Rightarrow> string io" where
  "helpersPrompt e message = emit (Prompt message) (promptAnswer e message)"

text \<open>\<^verbatim>\<open>Enquirer.prompt({ type: 'confirm', message })\<close>\<close>

definition enquirerConfirm :: "env \<Rightarrow> string \<Rightarrow> bool io" where
  "enquirerConfirm e message = emit (Confirm message) (confirmAnswer e message)"

text \<open>\<^verbatim>\<open>Enquirer.prompt([{ type: 'select', choices }])\<close>\<close>

definition enquirerSelect :: "env \<Rightarrow> string list \<Rightarrow> string io" where
  "enquirerSelect e choices = emit (Select choices) (selectAnswer e choices)"

text \<open>
  \<^verbatim>\<open>Enquirer.prompt({ type: 'form', message, choices })\<close>: the answer has one property
  for every choice, under the name of the choice: the string the user supplied for this
  name, or the initial value where the user supplied none. A field the user supplies
  under a name that is not among the choices is not part of the answer.
\<close>

definition enquirerForm :: "env \<Rightarrow> string \<Rightarrow> (string \<times> jsval) list \<Rightarrow> jsobj io" where
  "enquirerForm e message choices =
     emit (Form message choices)
       (map (\<lambda>(name, initial).
               (name, JStr (case map_of (formAnswer e message choices) name of
                              Some v \<Rightarrow> v
                            | None \<Rightarrow> toString (Some initial))))
            choices)"

text \<open>A JavaScript argument that may be missing; \<open>None\<close> and the empty string are falsy.\<close>

definition truthy :: "string option \<Rightarrow> bool" where
  "truthy a \<longleftrightarrow> (case a of None \<Rightarrow> False | Some s \<Rightarrow> s \<noteq> [])"

text \<open>\<^verbatim>\<open>search || ''\<close>\<close>

definition orEmpty :: "string option \<Rightarrow> string" where
  "orEmpty a = (case a of None \<Rightarrow> [] | Some s \<Rightarrow> s)"

text \<open>
  Modelled from the spec: \<^verbatim>\<open>Helpers.assert\<close> of \<^verbatim>\<open>lib/helpers.js\<close>. A missing required
  argument is a validation error: an error of the expected class, thrown with the given
  message and reported by the caller as \<^verbatim>\<open>{ error }\<close>.
\<close>

definition helpersAssert :: "string option list \<Rightarrow> string \<Rightarrow> unit io" where
  "helpersAssert args message = (if list_all truthy args then ret () else throw (Error message))"

text \<open>
  Modelled from the spec: \<^verbatim>\<open>Helpers.withErrHandling\<close> of \<^verbatim>\<open>lib/helpers.js\<close>. It awaits a
  function that returns \<^verbatim>\<open>{ output }\<close> or \<^verbatim>\<open>{ error }\<close>, gives the output and throws
  the error.
\<close>

definition withErrHandling :: "'a result io \<Rightarrow> 'a io" where
  "withErrHandling m = andThen m (\<lambda>r. case r of Output x \<Rightarrow> ret x | Failure error \<Rightarrow> throw error)"

section \<open>Search and disambiguation\<close>

text \<open>
  \<^verbatim>\<open>parseInt(item)\<close> of a result of the search: an entry is an object, its string
  conversion is \<^verbatim>\<open>[object Object]\<close>, and \<^verbatim>\<open>parseInt\<close> gives \<^verbatim>\<open>NaN\<close> (\<open>None\<close>).
\<close>

definition parseIntItem :: "jsobj \<Rightarrow> int option" where
  "parseIntItem item = None"

text \<open>
  \<^verbatim>\<open>internals.search\<close> with the options \<^verbatim>\<open>{ keys: ['tags'] }\<close> of every call in the
  module, on a list of entries. When every result parses as a number the results are
  taken as indices into the list; on entries this is the case of no result, where the
  map over the results is empty. \<^verbatim>\<open>options.id\<close> is not set, so the filter by id does
  not run.
\<close>

definition search :: "env \<Rightarrow> jsobj list \<Rightarrow> string \<Rightarrow> jsobj list result io" where
  "search e list query =
     tryCatch
       (let res = fuse e list query;
            res = (if length (filter (\<lambda>item. item \<noteq> None) (map parseIntItem res)) = length res
                   then [] else res)
        in ret (Output res))"

text \<open>
  \<^verbatim>\<open>list.find((item) => chosenResult === slugifyTags(item.tags))\<close>: the first entry of
  the list whose joined tags are the chosen string; the callback throws on an entry
  whose tags are not an array.
\<close>

fun findByJoinedTags :: "string \<Rightarrow> jsobj list \<Rightarrow> jserror + jsobj option" where
  "findByJoinedTags chosenResult [] = Inr None"
| "findByJoinedTags chosenResult (item # items) =
     (case slugifyTags (getProp item ''tags'') of
        Inl e \<Rightarrow> Inl e
      | Inr joined \<Rightarrow> if chosenResult = joined then Inr (Some item)
                     else findByJoinedTags chosenResult items)"

text \<open>\<^verbatim>\<open>internals.getSingleFromList\<close>; \<open>Output None\<close> is \<^verbatim>\<open>{ output: undefined }\<close>.\<close>

definition getSingleFromList :: "env \<Rightarrow> jsobj list \<Rightarrow> string \<Rightarrow> jsobj option result io" where
  "getSingleFromList e list query =
     tryCatch
       (andThen (withErrHandling (search e list query)) (\<lambda>results.
          let result = (case results of [] \<Rightarrow> None | r # _ \<Rightarrow> Some r) in
          if length results > 1 then
            andThen (lift (mapThrowing (\<lambda>r. slugifyTags (getProp r ''tags'')) results)) (\<lambda>joinedTags.
            andThen (enquirerSelect e joinedTags) (\<lambda>chosenResult.
            andThen (lift (findByJoinedTags chosenResult list)) (\<lambda>result.
            ret (Output result))))
          else ret (Output result)))"

section \<open>The operations\<close>

text \<open>\<^verbatim>\<open>internals.getInstance\<close>\<close>

definition getInstance :: "env \<Rightarrow> string option \<Rightarrow> doc result io" where
  "getInstance e strOrPath =
     tryCatch
       (andThen (lift (getDecrypted e strOrPath)) (\<lambda>decrypted.
        andThen (lift (automergeLoad e decrypted)) (\<lambda>loaded.
        ret (Output loaded))))"

text \<open>\<^verbatim>\<open>exports.list\<close>\<close>

definition list_secrets :: "env \<Rightarrow> string option \<Rightarrow> string option \<Rightarrow> string option \<Rightarrow> jsobj list result io" where
  "list_secrets e secretPathOrString keyIdentifier searchArg =
     tryCatch
       (andThen (withErrHandling (getInstance e secretPathOrString)) (\<lambda>instance.
        let output = secrets instance in
        if truthy searchArg then
          andThen (withErrHandling (search e output (orEmpty searchArg))) (\<lambda>output.
          ret (Output output))
        else ret (Output output)))"

text \<open>\<^verbatim>\<open>exports.add\<close>; the first decryption is outside of the \<^verbatim>\<open>try\<close> block.\<close>

definition add :: "env \<Rightarrow> string option \<Rightarrow> string option \<Rightarrow> doc result io" where
  "add e secretPathOrString keyIdentifier =
     andThen (lift (getDecrypted e secretPathOrString)) (\<lambda>localTag.
     tryCatch
       (andThen (helpersAssert [Some localTag, keyIdentifier]
                   (dq @ ''secretPathOrString, keyIdentifier'' @ dq @ '' are required to add secret'')) (\<lambda>_.
        andThen (withErrHandling (getInstance e (Some localTag))) (\<lambda>instance.
        andThen (helpersPrompt e ''Enter tags to find this secret later'') (\<lambda>tags.
        andThen (helpersPrompt e ''Enter secret'') (\<lambda>secret.
        let tags = getTagsFromString tags in
        andThen (lift (slugifyTags (Some (JArr tags)))) (\<lambda>slug.
        let message = ''Add '' @ sq @ slug @ sq in
        andThen (lift (automergeChange instance message
                         (addDraft instance tags secret (uuidV4 e) (packageVersion e)))) (\<lambda>updatedTag.
        emit (Change message) (Output updatedTag)))))))))"

text \<open>The messages of the two confirmation prompts of \<^verbatim>\<open>exports.delete\<close>.\<close>

definition areYouSureMessage :: "string \<Rightarrow> string" where
  "areYouSureMessage slug = ''Are you sure you want to delete secret '' @ dq @ slug @ dq @ ''?''"

definition areYouReallySureMessage :: "string \<Rightarrow> string" where
  "areYouReallySureMessage slug =
     ''Are you REALLY sure you want to delete secret '' @ dq @ slug @ dq @ ''?''"

text \<open>\<^verbatim>\<open>exports.delete\<close>\<close>

definition delete :: "env \<Rightarrow> string option \<Rightarrow> string option \<Rightarrow> string option \<Rightarrow> doc result io" where
  "delete e secretPathOrString keyIdentifier searchArg =
     tryCatch
       (andThen (helpersAssert [secretPathOrString, keyIdentifier, searchArg]
                   (dq @ ''secretPathOrString, keyIdentifier, search'' @ dq
                    @ '' are required to delete secret'')) (\<lambda>_.
        andThen (withErrHandling (getInstance e secretPathOrString)) (\<lambda>instance.
        andThen (withErrHandling (getSingleFromList e (secrets instance) (orEmpty searchArg))) (\<lambda>found.
        case found of
          None \<Rightarrow> ret (Failure (Message ''No result found for search''))
        | Some toDelete \<Rightarrow>
            andThen (lift (slugifyTags (getProp toDelete ''tags''))) (\<lambda>slug.
            andThen (enquirerConfirm e (areYouSureMessage slug)) (\<lambda>areYouSure.
            if \<not> areYouSure then ret (Failure (Message ''Delete cancelled''))
            else
              andThen (lift (slugifyTags (getProp toDelete ''tags''))) (\<lambda>slug.
              andThen (enquirerConfirm e (areYouReallySureMessage slug)) (\<lambda>areYouReallySure.
              if \<not> areYouReallySure then ret (Failure (Message ''Delete cancelled''))
              else
                andThen (lift (slugifyTags (getProp toDelete ''tags''))) (\<lambda>slug.
                let message = ''Delete '' @ sq @ slug @ sq in
                andThen (lift (automergeChange instance message
                                 (deleteDraft instance toDelete (packageVersion e)))) (\<lambda>updatedTag.
                emit (Change message) (Output updatedTag)))))))))))"

text \<open>
  What \<^verbatim>\<open>exports.update\<close> puts into \<^verbatim>\<open>{ output }\<close>: the new document, or the text that
  nothing was found.
\<close>

datatype updateOutput = Doc doc | Text string

text \<open>
  The choices of the form of \<^verbatim>\<open>exports.update\<close>: every property of the entry except
  \<^verbatim>\<open>id\<close> and \<^verbatim>\<open>isDoggo\<close>, the tags shown joined.
\<close>

definition formChoices :: "jsobj \<Rightarrow> jserror + (string \<times> jsval) list" where
  "formChoices toUpdate =
     mapThrowing
       (\<lambda>(key, v). if key \<noteq> ''tags'' then Inr (key, v)
                   else (case slugifyTags (Some v) of
                           Inl e \<Rightarrow> Inl e
                         | Inr slug \<Rightarrow> Inr (key, JStr slug)))
       (filter (\<lambda>(key, v). key \<noteq> ''id'' \<and> key \<noteq> ''isDoggo'') toUpdate)"

text \<open>\<^verbatim>\<open>exports.update\<close>\<close>

definition update :: "env \<Rightarrow> string option \<Rightarrow> string option \<Rightarrow> string option \<Rightarrow> updateOutput result io" where
  "update e secretPathOrString keyIdentifier searchArg =
     tryCatch
       (andThen (helpersAssert [secretPathOrString, keyIdentifier]
                   (dq @ ''secretPathOrString, keyIdentifier'' @ dq
                    @ '' are required to update secret'')) (\<lambda>_.
        andThen (withErrHandling (getInstance e secretPathOrString)) (\<lambda>instance.
        andThen (withErrHandling (getSingleFromList e (secrets instance) (orEmpty searchArg))) (\<lambda>found.
        case found of
          None \<Rightarrow> ret (Output (Text ''No result found for search''))
        | Some toUpdate \<Rightarrow>
            andThen (lift (formChoices toUpdate)) (\<lambda>choices.
            andThen (enquirerForm e (''Editing '' @ sq @ toString (getProp toUpdate ''tags'') @ sq) choices)
              (\<lambda>edited.
            andThen (lift (slugifyTags (getProp toUpdate ''tags''))) (\<lambda>slug.
            let message = ''Update '' @ sq @ slug @ sq in
            andThen (lift (automergeChange instance message
                             (updateDraft instance toUpdate edited (packageVersion e) (dateNow e))))
              (\<lambda>updatedTag.
            emit (Change message) (Output (Doc updatedTag))))))))))"

section \<open>Lineages and example data\<close>

text \<open>
  The documents of one lineage: the initial document and what the three mutations
  commit on a document of the lineage, under any message and with any arguments.
\<close>

inductive lineage :: "doc \<Rightarrow> bool" where
  lineage_init: "lineage (init uuid pkgVersion now)"
| lineage_add:
    "lineage d \<Longrightarrow>
     automergeChange d message (addDraft d tags secret uuid pkgVersion) = Inr d' \<Longrightarrow> lineage d'"
| lineage_delete:
    "lineage d \<Longrightarrow>
     automergeChange d message (deleteDraft d toDelete pkgVersion) = Inr d' \<Longrightarrow> lineage d'"
| lineage_update:
    "lineage d \<Longrightarrow>
     automergeChange d message (updateDraft d toUpdate edited pkgVersion now) = Inr d' \<Longrightarrow>
     lineage d'"

text \<open>The changes an operation committed.\<close>

fun isChange :: "event \<Rightarrow> bool" where
  "isChange (Change _) = True"
| "isChange _ = False"

definition changes :: "'a io \<Rightarrow> event list" where
  "changes r = filter isChange (fst r)"

text \<open>
  A small matcher for the examples: the empty query matches nothing; otherwise an
  entry matches when the query is a prefix of one of its tags (of the string, where the
  tags are a string); the matches keep the order of the list.
\<close>

definition prefixFuse :: "jsobj list \<Rightarrow> string \<Rightarrow> jsobj list" where
  "prefixFuse list query =
     (if query = [] then []
      else filter (\<lambda>item. case getProp item ''tags'' of
                      Some (JArr tags) \<Rightarrow> list_ex (\<lambda>t. take (length query) t = query) tags
                    | Some (JStr s) \<Rightarrow> take (length query) s = query
                    | None \<Rightarrow> False) list)"

text \<open>The document of the example scenario: initialised, then one entry added.\<close>

definition exampleEntry :: jsobj where
  "exampleEntry = [(''tags'', JArr [''email'', ''work'']), (''secret'', JStr ''p@ss''), (''id'', JStr ''id-1'')]"

definition exampleDoc :: doc where
  "exampleDoc =
     \<lparr>isDoggo = True, docId = ''doc-1'', version = 2, secrets = [exampleEntry],
      doggoVersion = ''1.0.0'', updatedAt = 100,
      history = [''Initialize'', ''Add '' @ sq @ ''email, work'' @ sq]\<rparr>"

text \<open>
  An environment for the examples: the file \<^verbatim>\<open>secrets.gpg\<close> holds the given
  document, the user types the tags \<^verbatim>\<open>bank, home\<close> and a secret, confirms every prompt,
  selects the first choice, and supplies a new secret and a different id to a form.
\<close>

definition exampleEnv :: "doc \<Rightarrow> env" where
  "exampleEnv d =
     \<lparr>getDecrypted = (\<lambda>a. case a of None \<Rightarrow> Inl (SystemError ''nothing to decrypt'') | Some s \<Rightarrow> Inr s),
      automergeLoad = (\<lambda>s. if s = ''secrets.gpg'' then Inr d else Inl (SystemError ''cannot load'')),
      fuse = prefixFuse,
      promptAnswer = (\<lambda>m. if m = ''Enter secret'' then ''hunter2'' else ''bank, home''),
      confirmAnswer = (\<lambda>m. True),
      selectAnswer = (\<lambda>choices. case choices of [] \<Rightarrow> [] | c # _ \<Rightarrow> c),
      formAnswer = (\<lambda>m choices. [(''id'', ''id-9''), (''secret'', ''s3cret'')]),
      uuidV4 = ''id-2'',
      dateNow = 200,
      packageVersion = ''1.0.1''\<rparr>"

text \<open>
  Three entries for the examples of the disambiguation, as add stores them: two with
  the same tag sequence, and one that shares only the first tag.
\<close>

definition entryA1 :: jsobj where
  "entryA1 = [(''tags'', JArr [''a'', ''b'']), (''secret'', JStr ''one''), (''id'', JStr ''id-1'')]"

definition entryA2 :: jsobj where
  "entryA2 = [(''tags'', JArr [''a'', ''b'']), (''secret'', JStr ''two''), (''id'', JStr ''id-2'')]"

definition entryC :: jsobj where
  "entryC = [(''tags'', JArr [''a'', ''c'']), (''secret'', JStr ''three''), (''id'', JStr ''id-3'')]"

text \<open>The user of this environment selects the choice \<^verbatim>\<open>a, c\<close>.\<close>

definition thirdChoiceEnv :: env where
  "thirdChoiceEnv = (exampleEnv exampleDoc)\<lparr>selectAnswer := (\<lambda>choices. ''a, c'')\<rparr>"

text \<open>A string without a separator character.\<close>

definition separatorFree :: "string \<Rightarrow> bool" where
  "separatorFree t \<longleftrightarrow> list_all (\<lambda>c. \<not> isSeparator c) t"

text \<open>The example document after the update of its entry by the user of the example.\<close>

definition updatedDoc :: doc where
  "updatedDoc =
     exampleDoc
       \<lparr>secrets := [[(''tags'', JStr ''email, work''), (''secret'', JStr ''s3cret''), (''id'', JStr ''id-1'')]],
        version := 3, doggoVersion := ''1.0.1'', updatedAt := 200,
        history := history exampleDoc @ [''Update '' @ sq @ ''email, work'' @ sq]\<rparr>"

text \<open>The example document after the add by the user of the example.\<close>

definition addedDoc :: doc where
  "addedDoc =
     exampleDoc
       \<lparr>secrets := [exampleEntry,
                    [(''tags'', JArr [''bank'', ''home'']), (''secret'', JStr ''hunter2''), (''id'', JStr ''id-2'')]],
        version := 3, doggoVersion := ''1.0.1'',
        history := history exampleDoc @ [''Add '' @ sq @ ''bank, home'' @ sq]\<rparr>"

text \<open>
  The document after the add, after an update of the added entry by the user of the
  example, and after one more add of the same tags under the id \<^verbatim>\<open>id-3\<close>.
\<close>

definition bankUpdatedDoc :: doc where
  "bankUpdatedDoc =
     addedDoc
       \<lparr>secrets := [exampleEntry,
                    [(''tags'', JStr ''bank, home''), (''secret'', JStr ''s3cret''), (''id'', JStr ''id-2'')]],
        version := 4, updatedAt := 200,
        history := history addedDoc @ [''Update '' @ sq @ ''bank, home'' @ sq]\<rparr>"

definition mixedDoc :: doc where
  "mixedDoc =
     bankUpdatedDoc
       \<lparr>secrets := secrets bankUpdatedDoc @
                    [[(''tags'', JArr [''bank'', ''home'']), (''secret'', JStr ''hunter2''), (''id'', JStr ''id-3'')]],
        version := 5,
        history := history bankUpdatedDoc @ [''Add '' @ sq @ ''bank, home'' @ sq]\<rparr>"

text \<open>
  The updated example document after two adds of the same tags, under the ids
  \<^verbatim>\<open>id-2\<close> and \<^verbatim>\<open>id-3\<close>.
\<close>

definition updatedAddedDoc :: doc where
  "updatedAddedDoc =
     updatedDoc
       \<lparr>secrets := secrets updatedDoc @
                    [[(''tags'', JArr [''bank'', ''home'']), (''secret'', JStr ''hunter2''), (''id'', JStr ''id-2'')]],
        version := 4,
        history := history updatedDoc @ [''Add '' @ sq @ ''bank, home'' @ sq]\<rparr>"

definition updatedAddedTwiceDoc :: doc where
  "updatedAddedTwiceDoc =
     updatedAddedDoc
       \<lparr>secrets := secrets updatedAddedDoc @
                    [[(''tags'', JArr [''bank'', ''home'']), (''secret'', JStr ''hunter2''), (''id'', JStr ''id-3'')]],
        version := 5,
        history := history updatedAddedDoc @ [''Add '' @ sq @ ''bank, home'' @ sq]\<rparr>"

text \<open>The user of this environment types a blank in front of the tag.\<close>

definition leadingBlankEnv :: env where
  "leadingBlankEnv = (exampleEnv exampleDoc)\<lparr>promptAnswer := (\<lambda>m. '' bank'')\<rparr>"

text \<open>The tags of the last entry of a document, where add appends.\<close>

definition lastTags :: "doc \<Rightarrow> jsval option" where
  "lastTags d = getProp (last (secrets d)) ''tags''"

section \<open>Lemmas on the effects and on the search\<close>

lemma andThen_Inl [simp]: "andThen (tr, Inl e) f = (tr, Inl e)"
  by (simp add: andThen_def)

lemma andThen_Inr [simp]: "andThen (tr, Inr x) f = (tr @ fst (f x), snd (f x))"
  by (simp add: andThen_def split: prod.splits)

lemma tryCatch_Inr [simp]: "tryCatch (tr, Inr r) = (tr, Inr r)"
  by (simp add: tryCatch_def)

lemma tryCatch_Inl [simp]:
  "tryCatch (tr, Inl e) = (if isSystem e then (tr, Inl e) else (tr, Inr (Failure e)))"
  by (simp add: tryCatch_def)

lemma withErrHandling_simps [simp]:
  "withErrHandling (tr, Inr (Output x)) = (tr, Inr x)"
  "withErrHandling (tr, Inr (Failure e)) = (tr, Inl e)"
  "withErrHandling (tr, Inl e) = (tr, Inl e)"
  by (simp_all add: withErrHandling_def ret_def throw_def)

lemma helpersAssert_pass: "list_all truthy args \<Longrightarrow> helpersAssert args message = ([], Inr ())"
  by (simp add: helpersAssert_def ret_def)

lemma helpersAssert_fail:
  "\<not> list_all truthy args \<Longrightarrow> helpersAssert args message = ([], Inl (Error message))"
  by (simp add: helpersAssert_def throw_def)

lemma getInstance_loaded:
  "getDecrypted e strOrPath = Inr s \<Longrightarrow> automergeLoad e s = Inr d \<Longrightarrow>
   getInstance e strOrPath = ([], Inr (Output d))"
  by (simp add: getInstance_def lift_def ret_def)

lemma getInstance_events: "fst (getInstance e strOrPath) = []"
proof (cases "getDecrypted e strOrPath")
  case (Inl err)
  then show ?thesis by (simp add: getInstance_def lift_def)
next
  case (Inr decrypted)
  then show ?thesis
    by (cases "automergeLoad e decrypted") (simp_all add: getInstance_def lift_def ret_def)
qed

lemma ex_load: "getInstance (exampleEnv d) (Some ''secrets.gpg'') = ([], Inr (Output d))"
  by (rule getInstance_loaded) (simp_all add: exampleEnv_def)

lemma search_eq: "search e list query = ([], Inr (Output (fuse e list query)))"
  by (auto simp: search_def parseIntItem_def ret_def Let_def)

lemma getSingleFromList_none:
  "fuse e list query = [] \<Longrightarrow> getSingleFromList e list query = ([], Inr (Output None))"
  by (simp add: getSingleFromList_def search_eq ret_def)

lemma getSingleFromList_one:
  "fuse e list query = [r] \<Longrightarrow> getSingleFromList e list query = ([], Inr (Output (Some r)))"
  by (simp add: getSingleFromList_def search_eq ret_def)

lemma getSingleFromList_many:
  assumes "fuse e list query = results" "length results > 1"
  shows "getSingleFromList e list query =
     (case mapThrowing (\<lambda>r. slugifyTags (getProp r ''tags'')) results of
        Inl err \<Rightarrow> ([], Inl err)
      | Inr joinedTags \<Rightarrow>
          ([Select joinedTags],
           case findByJoinedTags (selectAnswer e joinedTags) list of
             Inl err \<Rightarrow> Inl err
           | Inr result \<Rightarrow> Inr (Output result)))"
proof -
  have sys: "\<And>x err. slugifyTags x = Inl err \<Longrightarrow> isSystem err"
    by (erule slugifyTags.elims) auto
  have sys_map: "\<And>xs err. mapThrowing (\<lambda>r. slugifyTags (getProp r ''tags'')) xs = Inl err \<Longrightarrow> isSystem err"
  proof -
    fix xs :: "jsobj list" and err
    show "mapThrowing (\<lambda>r. slugifyTags (getProp r ''tags'')) xs = Inl err \<Longrightarrow> isSystem err"
      by (induction xs) (auto split: sum.splits dest: sys)
  qed
  have sys_find: "\<And>c xs err. findByJoinedTags c xs = Inl err \<Longrightarrow> isSystem err"
  proof -
    fix c and xs :: "jsobj list" and err
    show "findByJoinedTags c xs = Inl err \<Longrightarrow> isSystem err"
      by (induction xs) (auto split: sum.splits if_splits dest: sys)
  qed
  obtain r1 r2 rs where res: "results = r1 # r2 # rs"
    using assms(2) by (cases results; cases "tl results") auto
  show ?thesis
  proof (cases "mapThrowing (\<lambda>r. slugifyTags (getProp r ''tags'')) results")
    case (Inl err)
    then show ?thesis
      using assms(1) sys_map[OF Inl] res
      by (simp add: getSingleFromList_def search_eq lift_def)
  next
    case (Inr joinedTags)
    show ?thesis
    proof (cases "findByJoinedTags (selectAnswer e joinedTags) list")
      case (Inl err)
      then show ?thesis
        using assms(1) Inr sys_find[OF Inl] res
        by (simp add: getSingleFromList_def search_eq lift_def enquirerSelect_def emit_def)
    next
      case (Inr result)
      then show ?thesis
        using assms(1) \<open>mapThrowing (\<lambda>r. slugifyTags (getProp r ''tags'')) results = Inr joinedTags\<close> res
        by (simp add: getSingleFromList_def search_eq lift_def enquirerSelect_def emit_def ret_def)
    qed
  qed
qed

lemma getSingleFromList_events:
  "fst (getSingleFromList e list query) = [] \<or>
   (\<exists>choices. fst (getSingleFromList e list query) = [Select choices])"
proof (cases "length (fuse e list query) > 1")
  case True
  show ?thesis
    using getSingleFromList_many[OF refl True]
    by (auto split: sum.splits)
next
  case False
  then consider "fuse e list query = []" | r where "fuse e list query = [r]"
    by (cases "fuse e list query"; cases "tl (fuse e list query)") auto
  then show ?thesis
    by cases (auto simp: getSingleFromList_none getSingleFromList_one)
qed

lemma findByJoinedTags_Some:
  "findByJoinedTags chosen list = Inr (Some x) \<Longrightarrow>
   x \<in> set list \<and> slugifyTags (getProp x ''tags'') = Inr chosen"
  by (induction list) (auto split: sum.splits if_splits)

lemma mapThrowing_typed:
  "map (\<lambda>r. getProp r ''tags'') results = map (\<lambda>tags. Some (JArr tags)) tagss \<Longrightarrow>
   mapThrowing (\<lambda>r. slugifyTags (getProp r ''tags'')) results = Inr (map joinTags tagss)"
  by (induction results arbitrary: tagss) auto

lemma findByJoinedTags_typed:
  "map (\<lambda>r. getProp r ''tags'') list = map (\<lambda>tags. Some (JArr tags)) tagss \<Longrightarrow>
   findByJoinedTags chosen list =
     Inr (find (\<lambda>item. slugifyTags (getProp item ''tags'') = Inr chosen) list)"
  by (induction list arbitrary: tagss) auto

lemma getSingleFromList_many_typed:
  assumes "fuse e list query = results" "length results > 1"
    and "map (\<lambda>r. getProp r ''tags'') results = map (\<lambda>tags. Some (JArr tags)) tagss"
  shows "getSingleFromList e list query =
     ([Select (map joinTags tagss)],
      case findByJoinedTags (selectAnswer e (map joinTags tagss)) list of
        Inl err \<Rightarrow> Inl err
      | Inr result \<Rightarrow> Inr (Output result))"
  using getSingleFromList_many[OF assms(1,2)] mapThrowing_typed[OF assms(3)] by simp

section \<open>Lemmas on arrays and objects\<close>

lemma findIndex_first:
  "i < length xs \<Longrightarrow> p (xs ! i) \<Longrightarrow> \<forall>j<i. \<not> p (xs ! j) \<Longrightarrow> findIndex p xs = int i"
proof (induction xs arbitrary: i)
  case Nil
  then show ?case by simp
next
  case (Cons x xs)
  show ?case
  proof (cases i)
    case 0
    then show ?thesis using Cons.prems by simp
  next
    case (Suc n)
    have "\<not> p x" using Cons.prems(3) Suc by auto
    moreover have "\<forall>j<n. \<not> p (xs ! j)"
    proof (intro allI impI)
      fix j assume "j < n"
      then have "Suc j < i" using Suc by simp
      then show "\<not> p (xs ! j)" using Cons.prems(3) by fastforce
    qed
    then have "findIndex p xs = int n"
      using Cons.IH[of n] Cons.prems(1,2) Suc by simp
    ultimately show ?thesis using Suc by (simp add: Let_def)
  qed
qed

lemma findIndex_none: "\<forall>x \<in> set xs. \<not> p x \<Longrightarrow> findIndex p xs = - 1"
  by (induction xs) (auto simp: Let_def)

lemma findIndex_nonneg: "0 \<le> findIndex p xs \<or> findIndex p xs = - 1"
  by (induction xs) (auto simp: Let_def)

lemma findIndex_takeWhile:
  "\<exists>x \<in> set xs. p x \<Longrightarrow> findIndex p xs = int (length (takeWhile (\<lambda>x. \<not> p x) xs))"
proof (induction xs)
  case Nil
  then show ?case by simp
next
  case (Cons x xs)
  show ?case
  proof (cases "p x")
    case True
    then show ?thesis by simp
  next
    case False
    then have "\<exists>x \<in> set xs. p x" using Cons.prems by simp
    then show ?thesis using False Cons.IH by (simp add: Let_def)
  qed
qed

lemma take_takeWhile: "take (length (takeWhile q xs)) xs = takeWhile q xs"
  by (induction xs) auto

lemma drop_takeWhile: "drop (Suc (length (takeWhile q xs))) xs = tl (dropWhile q xs)"
  by (induction xs) auto

lemma splice_replace:
  "i < length xs \<Longrightarrow> automergeSplice xs (int i) (Suc 0) [y] = Inr (xs[i := y])"
  by (simp add: automergeSplice_def upd_conv_take_nth_drop)

lemma splice_remove:
  "automergeSplice xs (int i) (Suc 0) [] = Inr (take i xs @ drop (Suc i) xs)"
  by (simp add: automergeSplice_def)

lemma splice_negative:
  "automergeSplice xs (- 1) deleteCount items = Inl (RangeError ''A list index must be positive'')"
  by (simp add: automergeSplice_def)

lemma map_of_objectAssign:
  "map_of (objectAssign target source) = map_of target ++ map_of (rev source)"
  unfolding objectAssign_def
proof (induction source arbitrary: target)
  case Nil
  then show ?case by simp
next
  case (Cons kv source)
  obtain k v where kv: "kv = (k, v)" by (cases kv)
  show ?case
    unfolding kv by (simp add: Cons.IH update_conv' map_add_upd_left fun_eq_iff map_add_def split: option.splits)
qed

lemma map_of_rev_distinct: "distinct (map fst xs) \<Longrightarrow> map_of (rev xs) = map_of xs"
  by (subst map_of_inject_set) (simp_all add: rev_map[symmetric])

lemma getProp_objectAssign_copy:
  "isObject obj \<Longrightarrow> getProp (objectAssign [] obj) key = getProp obj key"
  by (simp add: getProp_def map_of_objectAssign isObject_def map_of_rev_distinct)

lemma getProp_objectAssign_other:
  "key \<notin> fst ` set source \<Longrightarrow> getProp (objectAssign target source) key = getProp target key"
  by (simp add: getProp_def map_of_objectAssign map_add_def map_of_eq_None_iff[THEN iffD2] split: option.splits)

section \<open>Lemmas on splitting and joining\<close>

lemma splitSeparators_clean:
  "separatorFree t \<Longrightarrow> splitSeparators cur (t @ rest) = splitSeparators (cur @ t) rest"
  by (induction t arbitrary: cur) (auto simp: separatorFree_def)

lemma dropWhile_clean:
  "s = [] \<or> \<not> isSeparator (hd s) \<Longrightarrow> dropWhile isSeparator s = s"
  by (cases s) auto

lemma isSeparator_blank_comma: "isSeparator CHR '' ''" "isSeparator CHR '',''"
  by (simp_all add: isSeparator_def)

lemma join_start:
  assumes "separatorFree u" "us = [] \<or> u \<noteq> []"
  shows "join '', '' (u # us) = [] \<or> \<not> isSeparator (hd (join '', '' (u # us)))"
proof (cases us)
  case Nil
  then show ?thesis using assms(1) by (cases u) (auto simp: separatorFree_def)
next
  case (Cons v vs)
  then have "u \<noteq> []" using assms(2) by simp
  then show ?thesis using assms(1) Cons by (cases u) (auto simp: separatorFree_def)
qed

lemma split_join:
  "list_all separatorFree (t # ts) \<Longrightarrow> [] \<notin> set (butlast ts) \<Longrightarrow>
   splitSeparators cur (join '', '' (t # ts)) = (cur @ t) # ts"
proof (induction ts arbitrary: cur t)
  case Nil
  then show ?case using splitSeparators_clean[of t cur "[]"] by simp
next
  case (Cons u us)
  have u: "separatorFree u" and t: "separatorFree t" using Cons.prems by simp_all
  have "us = [] \<or> u \<noteq> []" using Cons.prems(2) by (auto split: if_splits)
  note start = join_start[OF u this]
  have "splitSeparators cur (join '', '' (t # u # us)) =
        splitSeparators (cur @ t) ('', '' @ join '', '' (u # us))"
    using splitSeparators_clean[OF t, of cur] by simp
  also have "\<dots> = (cur @ t) # splitSeparators [] (dropWhile isSeparator (join '', '' (u # us)))"
    by (simp add: isSeparator_blank_comma)
  also have "\<dots> = (cur @ t) # splitSeparators [] (join '', '' (u # us))"
    using dropWhile_clean[OF start] by simp
  also have "\<dots> = (cur @ t) # u # us"
    using Cons.IH[of u "[]"] Cons.prems by (auto split: if_splits)
  finally show ?case .
qed

lemma splitSeparators_not_Nil: "splitSeparators cur s \<noteq> []"
  by (induction cur s rule: splitSeparators.induct) auto

lemma splitSeparators_inner:
  "cur \<noteq> [] \<or> (s \<noteq> [] \<and> \<not> isSeparator (hd s)) \<Longrightarrow> [] \<notin> set (butlast (splitSeparators cur s))"
proof (induction cur s rule: splitSeparators.induct)
  case (1 cur)
  then show ?case by simp
next
  case (2 cur c cs)
  show ?case
  proof (cases "isSeparator c")
    case True
    then have cur: "cur \<noteq> []" using "2.prems" by simp
    show ?thesis
    proof (cases "dropWhile isSeparator cs = []")
      case empty: True
      have "splitSeparators [] (dropWhile isSeparator cs) = [[]]"
        by (simp only: empty splitSeparators.simps)
      then show ?thesis using True cur by simp
    next
      case False
      then have "\<not> isSeparator (hd (dropWhile isSeparator cs))"
        by (rule hd_dropWhile)
      with False have "[] \<notin> set (butlast (splitSeparators [] (dropWhile isSeparator cs)))"
        using "2.IH"(1)[OF True] by simp
      then show ?thesis using True cur by (simp add: splitSeparators_not_Nil)
    qed
  next
    case False
    then show ?thesis using "2.IH"(2)[OF False] by simp
  qed
qed

lemma splitSeparators_interior: "[] \<notin> set (butlast (tl (splitSeparators cur s)))"
proof (induction cur s rule: splitSeparators.induct)
  case (1 cur)
  then show ?case by simp
next
  case (2 cur c cs)
  show ?case
  proof (cases "isSeparator c")
    case True
    show ?thesis
    proof (cases "dropWhile isSeparator cs = []")
      case empty: True
      have "splitSeparators [] (dropWhile isSeparator cs) = [[]]"
        by (simp only: empty splitSeparators.simps)
      then show ?thesis using True by simp
    next
      case False
      then have "\<not> isSeparator (hd (dropWhile isSeparator cs))"
        by (rule hd_dropWhile)
      with False show ?thesis
        using True splitSeparators_inner[of "[]" "dropWhile isSeparator cs"] by simp
    qed
  next
    case False
    then show ?thesis using "2.IH"(2)[OF False] by simp
  qed
qed

lemma splitSeparators_last:
  "s = [] \<or> \<not> isSeparator (last s) \<Longrightarrow> cur \<noteq> [] \<or> s \<noteq> [] \<Longrightarrow>
   last (splitSeparators cur s) \<noteq> []"
proof (induction cur s rule: splitSeparators.induct)
  case (1 cur)
  then show ?case by simp
next
  case (2 cur c cs)
  show ?case
  proof (cases "isSeparator c")
    case True
    then have cs: "cs \<noteq> []" "\<not> isSeparator (last cs)"
      using "2.prems"(1) by (auto split: if_splits)
    then have ne: "dropWhile isSeparator cs \<noteq> []"
      by (metis dropWhile_eq_Nil_conv last_in_set)
    have "last (dropWhile isSeparator cs) = last cs"
      using ne by (metis last_appendR takeWhile_dropWhile_id)
    then have "last (splitSeparators [] (dropWhile isSeparator cs)) \<noteq> []"
      using "2.IH"(1)[OF True] ne cs by simp
    then show ?thesis using True by (simp add: splitSeparators_not_Nil)
  next
    case False
    then show ?thesis using "2.IH"(2)[OF False] "2.prems"(1) by (auto split: if_splits)
  qed
qed

lemma splitSeparators_separatorFree:
  "separatorFree cur \<Longrightarrow> list_all separatorFree (splitSeparators cur s)"
proof (induction cur s rule: splitSeparators.induct)
  case (1 cur)
  then show ?case by simp
next
  case (2 cur c cs)
  then show ?case by (auto simp: separatorFree_def)
qed

section \<open>Lemmas on the operations\<close>

text \<open>
  What each operation returns when the document loads and the search has located an
  entry, and what a returned document is made of.
\<close>

lemma list_secrets_events: "fst (list_secrets e secretPathOrString keyIdentifier searchArg) = []"
proof -
  obtain r1 where gi: "getInstance e secretPathOrString = ([], r1)"
    using getInstance_events[of e secretPathOrString]
    by (cases "getInstance e secretPathOrString") simp
  show ?thesis
  proof (cases r1)
    case (Inl err)
    then show ?thesis by (simp add: list_secrets_def gi)
  next
    case (Inr res)
    then show ?thesis
      by (cases res) (simp_all add: list_secrets_def gi search_eq ret_def Let_def)
  qed
qed

text \<open>What the three changes commit, and when the changes of delete and update throw.\<close>

lemma automergeChange_add:
  "automergeChange d message (addDraft d tags secret uuid pkgVersion) =
     Inr (d\<lparr>secrets := secrets d @ [[(''tags'', JArr tags), (''secret'', JStr secret), (''id'', JStr uuid)]],
            version := length (history d) + 1,
            doggoVersion := pkgVersion,
            history := history d @ [message]\<rparr>)"
  by (simp add: automergeChange_def addDraft_def)

lemma automergeChange_delete:
  assumes "\<exists>item \<in> set (secrets d). getProp item ''id'' = getProp toDelete ''id''"
  shows "automergeChange d message (deleteDraft d toDelete pkgVersion) =
     Inr (d\<lparr>secrets := takeWhile (\<lambda>item. getProp item ''id'' \<noteq> getProp toDelete ''id'') (secrets d)
                        @ tl (dropWhile (\<lambda>item. getProp item ''id'' \<noteq> getProp toDelete ''id'') (secrets d)),
            version := length (history d) + 1,
            doggoVersion := pkgVersion,
            history := history d @ [message]\<rparr>)"
  using findIndex_takeWhile[OF assms]
  by (simp add: automergeChange_def deleteDraft_def splice_remove take_takeWhile drop_takeWhile)

lemma automergeChange_delete_missing:
  assumes "\<forall>item \<in> set (secrets d). getProp item ''id'' \<noteq> getProp toDelete ''id''"
  shows "automergeChange d message (deleteDraft d toDelete pkgVersion) =
     Inl (RangeError ''A list index must be positive'')"
  using findIndex_none[of "secrets d" "\<lambda>item. getProp item ''id'' = getProp toDelete ''id''"] assms
  by (simp add: automergeChange_def deleteDraft_def splice_negative)

lemma automergeChange_update:
  assumes "i < length (secrets d)" "getProp (secrets d ! i) ''id'' = getProp toUpdate ''id''"
    and "\<forall>j<i. getProp (secrets d ! j) ''id'' \<noteq> getProp toUpdate ''id''"
  shows "automergeChange d message (updateDraft d toUpdate edited pkgVersion now) =
     Inr (d\<lparr>secrets := (secrets d)[i := objectAssign (objectAssign [] toUpdate) edited],
            version := length (history d) + 1,
            doggoVersion := pkgVersion,
            updatedAt := now,
            history := history d @ [message]\<rparr>)"
proof -
  have "findIndex (\<lambda>item. getProp item ''id'' = getProp toUpdate ''id'') (secrets d) = int i"
    using assms by (intro findIndex_first) auto
  then show ?thesis
    by (simp add: automergeChange_def updateDraft_def splice_replace[OF assms(1)])
qed

lemma automergeChange_add_fields:
  assumes "automergeChange d message (addDraft d tags secret uuid pkgVersion) = Inr d'"
  shows "version d' = length (history d) + 1" "updatedAt d' = updatedAt d"
    "history d' = history d @ [message]"
  using assms by (auto simp: automergeChange_add)

lemma automergeChange_delete_fields:
  assumes "automergeChange d message (deleteDraft d toDelete pkgVersion) = Inr d'"
  shows "version d' = length (history d) + 1" "updatedAt d' = updatedAt d"
    "history d' = history d @ [message]"
  using assms by (auto simp: automergeChange_def deleteDraft_def split: sum.splits)

lemma automergeChange_update_fields:
  assumes "automergeChange d message (updateDraft d toUpdate edited pkgVersion now) = Inr d'"
  shows "version d' = length (history d) + 1" "updatedAt d' = now"
    "history d' = history d @ [message]"
  using assms by (auto simp: automergeChange_def updateDraft_def split: sum.splits)

lemma add_loaded:
  assumes "getDecrypted e secretPathOrString = Inr localTag" "localTag \<noteq> []" "truthy keyIdentifier"
    and "getInstance e (Some localTag) = ([], Inr (Output instance))"
  shows "add e secretPathOrString keyIdentifier =
     ([Prompt ''Enter tags to find this secret later'', Prompt ''Enter secret'',
       Change (''Add '' @ sq
               @ joinTags (getTagsFromString (promptAnswer e ''Enter tags to find this secret later''))
               @ sq)],
      Inr (Output (instance
             \<lparr>secrets := secrets instance @
                [[(''tags'', JArr (getTagsFromString (promptAnswer e ''Enter tags to find this secret later''))),
                  (''secret'', JStr (promptAnswer e ''Enter secret'')),
                  (''id'', JStr (uuidV4 e))]],
              version := length (history instance) + 1,
              doggoVersion := packageVersion e,
              history := history instance @
                [''Add '' @ sq
                 @ joinTags (getTagsFromString (promptAnswer e ''Enter tags to find this secret later''))
                 @ sq]\<rparr>)))"
  using assms
  by (simp add: add_def lift_def helpersAssert_pass truthy_def helpersPrompt_def emit_def Let_def
      automergeChange_add)

lemma add_Output:
  assumes "snd (add e secretPathOrString keyIdentifier) = Inr (Output d)"
  shows "\<exists>localTag inst message.
     getDecrypted e secretPathOrString = Inr localTag
     \<and> snd (getInstance e (Some localTag)) = Inr (Output inst)
     \<and> automergeChange inst message
           (addDraft inst (getTagsFromString (promptAnswer e ''Enter tags to find this secret later''))
              (promptAnswer e ''Enter secret'') (uuidV4 e) (packageVersion e)) = Inr d"
proof (cases "getDecrypted e secretPathOrString")
  case (Inl err)
  then show ?thesis using assms by (simp add: add_def lift_def)
next
  case (Inr localTag)
  show ?thesis
  proof (cases "list_all truthy [Some localTag, keyIdentifier]")
    case False
    then show ?thesis
      using assms Inr by (simp add: add_def lift_def helpersAssert_fail)
  next
    case True
    obtain tr r where gi: "getInstance e (Some localTag) = (tr, r)"
      by (cases "getInstance e (Some localTag)")
    show ?thesis
    proof (cases r)
      case (Inl err)
      then show ?thesis
        using assms Inr True gi
        by (simp add: add_def lift_def helpersAssert_pass split: if_splits)
    next
      case r: (Inr res)
      show ?thesis
      proof (cases res)
        case (Failure err)
        then show ?thesis
          using assms Inr True gi r
          by (simp add: add_def lift_def helpersAssert_pass split: if_splits)
      next
        case (Output inst)
        then show ?thesis
          using assms Inr True gi r
          by (auto simp: add_def lift_def helpersAssert_pass helpersPrompt_def emit_def Let_def
              automergeChange_add)
      qed
    qed
  qed
qed

lemma delete_located:
  assumes args: "truthy secretPathOrString" "truthy keyIdentifier" "truthy searchArg"
    and load: "getInstance e secretPathOrString = ([], Inr (Output instance))"
    and located: "getSingleFromList e (secrets instance) (orEmpty searchArg) = (tr, Inr (Output (Some toDelete)))"
    and tags: "getProp toDelete ''tags'' = Some (JArr tags)"
    and change: "automergeChange instance (''Delete '' @ sq @ joinTags tags @ sq)
                   (deleteDraft instance toDelete (packageVersion e)) = Inr d"
  shows "delete e secretPathOrString keyIdentifier searchArg =
     (if \<not> confirmAnswer e (areYouSureMessage (joinTags tags))
      then (tr @ [Confirm (areYouSureMessage (joinTags tags))],
            Inr (Failure (Message ''Delete cancelled'')))
      else if \<not> confirmAnswer e (areYouReallySureMessage (joinTags tags))
      then (tr @ [Confirm (areYouSureMessage (joinTags tags)),
                  Confirm (areYouReallySureMessage (joinTags tags))],
            Inr (Failure (Message ''Delete cancelled'')))
      else (tr @ [Confirm (areYouSureMessage (joinTags tags)),
                  Confirm (areYouReallySureMessage (joinTags tags)),
                  Change (''Delete '' @ sq @ joinTags tags @ sq)],
            Inr (Output d)))"
  using args change
  by (simp add: delete_def helpersAssert_pass load located tags lift_def enquirerConfirm_def
      emit_def ret_def Let_def)

text \<open>
  A located entry whose id no entry of the loaded document has: after both
  confirmations the change throws the \<^verbatim>\<open>RangeError\<close> of the splice, and nothing is
  committed.
\<close>

lemma delete_located_missing:
  assumes args: "truthy secretPathOrString" "truthy keyIdentifier" "truthy searchArg"
    and load: "getInstance e secretPathOrString = ([], Inr (Output instance))"
    and located: "getSingleFromList e (secrets instance) (orEmpty searchArg) = (tr, Inr (Output (Some toDelete)))"
    and tags: "getProp toDelete ''tags'' = Some (JArr tags)"
    and missing: "\<forall>item \<in> set (secrets instance). getProp item ''id'' \<noteq> getProp toDelete ''id''"
    and sure: "confirmAnswer e (areYouSureMessage (joinTags tags))"
      "confirmAnswer e (areYouReallySureMessage (joinTags tags))"
  shows "delete e secretPathOrString keyIdentifier searchArg =
     (tr @ [Confirm (areYouSureMessage (joinTags tags)),
            Confirm (areYouReallySureMessage (joinTags tags))],
      Inl (RangeError ''A list index must be positive''))"
  using args sure automergeChange_delete_missing[OF missing]
  by (simp add: delete_def helpersAssert_pass load located tags lift_def enquirerConfirm_def
      emit_def ret_def Let_def)

lemma delete_located_untyped:
  assumes "truthy secretPathOrString" "truthy keyIdentifier" "truthy searchArg"
    and "getInstance e secretPathOrString = ([], Inr (Output instance))"
    and "getSingleFromList e (secrets instance) (orEmpty searchArg) = (tr, Inr (Output (Some toDelete)))"
    and "slugifyTags (getProp toDelete ''tags'') = Inl err"
  shows "delete e secretPathOrString keyIdentifier searchArg = (tr, Inl err)"
proof -
  have "isSystem err"
    using assms(6) by (rule slugifyTags.elims) auto
  then show ?thesis
    using assms by (simp add: delete_def helpersAssert_pass lift_def)
qed

lemma delete_not_found:
  assumes "truthy secretPathOrString" "truthy keyIdentifier" "truthy searchArg"
    and "getInstance e secretPathOrString = ([], Inr (Output instance))"
    and "fuse e (secrets instance) (orEmpty searchArg) = []"
  shows "delete e secretPathOrString keyIdentifier searchArg =
           ([], Inr (Failure (Message ''No result found for search'')))"
  using assms
  by (simp add: delete_def helpersAssert_pass getSingleFromList_none ret_def)

lemma delete_Output:
  assumes "snd (delete e secretPathOrString keyIdentifier searchArg) = Inr (Output d)"
  shows "\<exists>inst message toDelete.
     snd (getInstance e secretPathOrString) = Inr (Output inst)
     \<and> automergeChange inst message (deleteDraft inst toDelete (packageVersion e)) = Inr d"
proof (cases "list_all truthy [secretPathOrString, keyIdentifier, searchArg]")
  case False
  then show ?thesis
    using assms by (simp add: delete_def helpersAssert_fail)
next
  case True
  obtain t1 r1 where gi: "getInstance e secretPathOrString = (t1, r1)"
    by (cases "getInstance e secretPathOrString")
  show ?thesis
  proof (cases r1)
    case (Inl err)
    then show ?thesis
      using assms True gi by (simp add: delete_def helpersAssert_pass split: if_splits)
  next
    case r1: (Inr res)
    show ?thesis
    proof (cases res)
      case (Failure err)
      then show ?thesis
        using assms True gi r1 by (simp add: delete_def helpersAssert_pass split: if_splits)
    next
      case (Output inst)
      obtain t2 r2 where gs: "getSingleFromList e (secrets inst) (orEmpty searchArg) = (t2, r2)"
        by (cases "getSingleFromList e (secrets inst) (orEmpty searchArg)")
      show ?thesis
      proof (cases r2)
        case (Inl err)
        then show ?thesis
          using assms True gi r1 Output gs
          by (simp add: delete_def helpersAssert_pass split: if_splits)
      next
        case r2: (Inr res2)
        show ?thesis
        proof (cases res2)
          case (Failure err)
          then show ?thesis
            using assms True gi r1 Output gs r2
            by (simp add: delete_def helpersAssert_pass split: if_splits)
        next
          case found: (Output found)
          show ?thesis
          proof (cases found)
            case None
            then show ?thesis
              using assms True gi r1 Output gs r2 found
              by (simp add: delete_def helpersAssert_pass ret_def)
          next
            case (Some toDelete)
            show ?thesis
            proof (cases "slugifyTags (getProp toDelete ''tags'')")
              case (Inl err)
              then show ?thesis
                using assms True gi r1 Output gs r2 found Some
                by (simp add: delete_def helpersAssert_pass lift_def split: if_splits)
            next
              case slug: (Inr slug)
              show ?thesis
              proof (cases "automergeChange inst (''Delete '' @ sq @ slug @ sq)
                              (deleteDraft inst toDelete (packageVersion e))")
                case (Inl err)
                then show ?thesis
                  using assms True gi r1 Output gs r2 found Some slug
                  by (simp add: delete_def helpersAssert_pass lift_def enquirerConfirm_def emit_def
                      ret_def Let_def split: if_splits)
              next
                case change: (Inr d')
                then have "d' = d"
                  using assms True gi r1 Output gs r2 found Some slug
                  by (simp add: delete_def helpersAssert_pass lift_def enquirerConfirm_def emit_def
                      ret_def Let_def split: if_splits)
                then show ?thesis
                  using change gi r1 Output by auto
              qed
            qed
          qed
        qed
      qed
    qed
  qed
qed

lemma mapThrowing_choices:
  "\<forall>(key, v) \<in> set entries. key = ''tags'' \<longrightarrow> (\<exists>tags. v = JArr tags) \<Longrightarrow>
   \<exists>choices.
     mapThrowing
       (\<lambda>(key, v). if key \<noteq> ''tags'' then Inr (key, v)
                   else (case slugifyTags (Some v) of
                           Inl e \<Rightarrow> Inl e
                         | Inr slug \<Rightarrow> Inr (key, JStr slug))) entries = Inr choices
     \<and> map fst choices = map fst entries"
proof (induction entries)
  case Nil
  then show ?case by simp
next
  case (Cons kv entries)
  obtain k v where kv: "kv = (k, v)" by (cases kv)
  from Cons obtain choices where
    "mapThrowing
       (\<lambda>(key, v). if key \<noteq> ''tags'' then Inr (key, v)
                   else (case slugifyTags (Some v) of
                           Inl e \<Rightarrow> Inl e
                         | Inr slug \<Rightarrow> Inr (key, JStr slug))) entries = Inr choices"
    "map fst choices = map fst entries"
    by auto
  then show ?case
    using Cons.prems unfolding kv by (cases "k = ''tags''") auto
qed

lemma formChoices_typed:
  assumes "isObject toUpdate" "getProp toUpdate ''tags'' = Some (JArr tags)"
  shows "\<exists>choices. formChoices toUpdate = Inr choices \<and> ''id'' \<notin> fst ` set choices"
proof -
  let ?kept = "filter (\<lambda>(key, v). key \<noteq> ''id'' \<and> key \<noteq> ''isDoggo'') toUpdate"
  have "\<forall>(key, v) \<in> set ?kept. key = ''tags'' \<longrightarrow> (\<exists>tags. v = JArr tags)"
    using assms eq_key_imp_eq_value[of toUpdate "''tags''"]
    by (fastforce simp: isObject_def getProp_def dest: map_of_SomeD)
  from mapThrowing_choices[OF this] obtain choices where
    c: "formChoices toUpdate = Inr choices" "map fst choices = map fst ?kept"
    unfolding formChoices_def by blast
  have "''id'' \<notin> set (map fst ?kept)"
    by auto
  then have "''id'' \<notin> fst ` set choices"
    using c(2) by (metis set_map)
  then show ?thesis using c(1) by blast
qed

lemma enquirerForm_keys:
  "enquirerForm e message choices = ([Form message choices], Inr edited) \<Longrightarrow>
   map fst edited = map fst choices"
  by (auto simp: enquirerForm_def emit_def)

lemma update_located:
  assumes args: "truthy secretPathOrString" "truthy keyIdentifier"
    and load: "getInstance e secretPathOrString = ([], Inr (Output instance))"
    and located: "getSingleFromList e (secrets instance) (orEmpty searchArg) = (tr, Inr (Output (Some toUpdate)))"
    and obj: "isObject toUpdate"
    and tags: "getProp toUpdate ''tags'' = Some (JArr tags)"
    and pos: "i < length (secrets instance)"
      "getProp (secrets instance ! i) ''id'' = getProp toUpdate ''id''"
    and first: "\<forall>j<i. getProp (secrets instance ! j) ''id'' \<noteq> getProp toUpdate ''id''"
  shows "\<exists>choices edited.
     formChoices toUpdate = Inr choices \<and> ''id'' \<notin> fst ` set edited
     \<and> update e secretPathOrString keyIdentifier searchArg =
         (tr @ [Form (''Editing '' @ sq @ join '','' tags @ sq) choices,
                Change (''Update '' @ sq @ joinTags tags @ sq)],
          Inr (Output (Doc (instance
                 \<lparr>secrets := (secrets instance)[i := objectAssign (objectAssign [] toUpdate) edited],
                  version := length (history instance) + 1,
                  doggoVersion := packageVersion e,
                  updatedAt := dateNow e,
                  history := history instance @ [''Update '' @ sq @ joinTags tags @ sq]\<rparr>))))"
proof -
  from formChoices_typed[OF obj tags] obtain choices where
    c: "formChoices toUpdate = Inr choices" "''id'' \<notin> fst ` set choices"
    by blast
  obtain edited where
    ed: "enquirerForm e (''Editing '' @ sq @ join '','' tags @ sq) choices =
          ([Form (''Editing '' @ sq @ join '','' tags @ sq) choices], Inr edited)"
    by (simp add: enquirerForm_def emit_def)
  have "''id'' \<notin> fst ` set edited"
    using enquirerForm_keys[OF ed] c(2) by (metis set_map)
  moreover have "update e secretPathOrString keyIdentifier searchArg =
         (tr @ [Form (''Editing '' @ sq @ join '','' tags @ sq) choices,
                Change (''Update '' @ sq @ joinTags tags @ sq)],
          Inr (Output (Doc (instance
                 \<lparr>secrets := (secrets instance)[i := objectAssign (objectAssign [] toUpdate) edited],
                  version := length (history instance) + 1,
                  doggoVersion := packageVersion e,
                  updatedAt := dateNow e,
                  history := history instance @ [''Update '' @ sq @ joinTags tags @ sq]\<rparr>))))"
    using args ed
      automergeChange_update[OF pos first, of "''Update '' @ sq @ joinTags tags @ sq" edited
        "packageVersion e" "dateNow e"]
    by (simp add: update_def helpersAssert_pass load located tags c(1) lift_def emit_def Let_def)
  ultimately show ?thesis using c(1) by blast
qed

lemma update_not_found:
  assumes "truthy secretPathOrString" "truthy keyIdentifier"
    and "getInstance e secretPathOrString = ([], Inr (Output instance))"
    and "fuse e (secrets instance) (orEmpty searchArg) = []"
  shows "update e secretPathOrString keyIdentifier searchArg =
           ([], Inr (Output (Text ''No result found for search'')))"
  using assms
  by (simp add: update_def helpersAssert_pass getSingleFromList_none ret_def)

lemma update_Output:
  assumes "snd (update e secretPathOrString keyIdentifier searchArg) = Inr (Output (Doc d))"
  shows "\<exists>inst message toUpdate edited.
     snd (getInstance e secretPathOrString) = Inr (Output inst)
     \<and> automergeChange inst message
           (updateDraft inst toUpdate edited (packageVersion e) (dateNow e)) = Inr d"
proof (cases "list_all truthy [secretPathOrString, keyIdentifier]")
  case False
  then show ?thesis
    using assms by (simp add: update_def helpersAssert_fail)
next
  case True
  obtain t1 r1 where gi: "getInstance e secretPathOrString = (t1, r1)"
    by (cases "getInstance e secretPathOrString")
  show ?thesis
  proof (cases r1)
    case (Inl err)
    then show ?thesis
      using assms True gi by (simp add: update_def helpersAssert_pass split: if_splits)
  next
    case r1: (Inr res)
    show ?thesis
    proof (cases res)
      case (Failure err)
      then show ?thesis
        using assms True gi r1 by (simp add: update_def helpersAssert_pass split: if_splits)
    next
      case (Output inst)
      obtain t2 r2 where gs: "getSingleFromList e (secrets inst) (orEmpty searchArg) = (t2, r2)"
        by (cases "getSingleFromList e (secrets inst) (orEmpty searchArg)")
      show ?thesis
      proof (cases r2)
        case (Inl err)
        then show ?thesis
          using assms True gi r1 Output gs
          by (simp add: update_def helpersAssert_pass split: if_splits)
      next
        case r2: (Inr res2)
        show ?thesis
        proof (cases res2)
          case (Failure err)
          then show ?thesis
            using assms True gi r1 Output gs r2
            by (simp add: update_def helpersAssert_pass split: if_splits)
        next
          case found: (Output found)
          show ?thesis
          proof (cases found)
            case None
            then show ?thesis
              using assms True gi r1 Output gs r2 found
              by (simp add: update_def helpersAssert_pass ret_def)
          next
            case (Some toUpdate)
            show ?thesis
            proof (cases "formChoices toUpdate")
              case (Inl err)
              then show ?thesis
                using assms True gi r1 Output gs r2 found Some
                by (simp add: update_def helpersAssert_pass lift_def split: if_splits)
            next
              case choices: (Inr choices)
              show ?thesis
              proof (cases "slugifyTags (getProp toUpdate ''tags'')")
                case (Inl err)
                then show ?thesis
                  using assms True gi r1 Output gs r2 found Some choices
                  by (simp add: update_def helpersAssert_pass lift_def enquirerForm_def emit_def
                      split: if_splits)
              next
                case slug: (Inr slug)
                obtain edited where
                  ed: "enquirerForm e (''Editing '' @ sq @ toString (getProp toUpdate ''tags'') @ sq) choices =
                        ([Form (''Editing '' @ sq @ toString (getProp toUpdate ''tags'') @ sq) choices],
                         Inr edited)"
                  by (simp add: enquirerForm_def emit_def)
                show ?thesis
                proof (cases "automergeChange inst (''Update '' @ sq @ slug @ sq)
                                (updateDraft inst toUpdate edited (packageVersion e) (dateNow e))")
                  case (Inl err)
                  then show ?thesis
                    using assms True gi r1 Output gs r2 found Some choices slug ed
                    by (simp add: update_def helpersAssert_pass lift_def emit_def Let_def
                        split: if_splits)
                next
                  case change: (Inr d')
                  then have "d' = d"
                    using assms True gi r1 Output gs r2 found Some choices slug ed
                    by (simp add: update_def helpersAssert_pass lift_def emit_def Let_def
                        split: if_splits)
                  then show ?thesis
                    using change gi r1 Output by auto
                qed
              qed
            qed
          qed
        qed
      qed
    qed
  qed
qed

text \<open>
  The answer of the form is an object of strings, and update stores it as it is: after
  an update the tags of the entry are the joined string, not an array. A later delete
  that locates this entry throws the \<^verbatim>\<open>TypeError\<close> of \<^verbatim>\<open>slugifyTags\<close> before its first
  prompt.
\<close>

lemma update_stores_joined_tags:
  "update (exampleEnv exampleDoc) (Some ''secrets.gpg'') (Some ''key'') (Some ''work'') =
     ([Form (''Editing '' @ sq @ ''email,work'' @ sq)
         [(''tags'', JStr ''email, work''), (''secret'', JStr ''p@ss'')],
       Change (''Update '' @ sq @ ''email, work'' @ sq)],
      Inr (Output (Doc updatedDoc)))
   \<and> secrets updatedDoc =
       [[(''tags'', JStr ''email, work''), (''secret'', JStr ''s3cret''), (''id'', JStr ''id-1'')]]
   \<and> delete (exampleEnv updatedDoc) (Some ''secrets.gpg'') (Some ''key'') (Some ''email'') =
       ([], Inl (TypeError ''tags.join is not a function''))"
  by code_simp

text \<open>
  In a lineage the version of a document is the length of its history.
\<close>

lemma lineage_version: "lineage d \<Longrightarrow> version d = length (history d)"
proof (induction rule: lineage.induct)
  case (lineage_init uuid pkgVersion now)
  then show ?case by (simp add: init_def)
next
  case (lineage_add d message tags secret uuid pkgVersion d')
  then show ?case using automergeChange_add_fields[OF lineage_add(2)] by simp
next
  case (lineage_delete d message toDelete pkgVersion d')
  then show ?case using automergeChange_delete_fields[OF lineage_delete(2)] by simp
next
  case (lineage_update d message toUpdate edited pkgVersion now d')
  then show ?case using automergeChange_update_fields[OF lineage_update(2)] by simp
qed
section \<open>The two confirmations of delete\<close>

text \<open>
  C1. When the search of a delete locates an entry of the loaded document (with its
  tags an array, as the data model has them): declining the first confirmation gives
  the outcome \<^verbatim>\<open>Delete cancelled\<close> with the first prompt as the only confirmation shown;
  accepting the first and declining the second gives \<^verbatim>\<open>Delete cancelled\<close> after both
  prompts; accepting both commits the delete change and returns the new document: the
  loaded document without the first entry that has the id of the located one, with the
  version set to the length of the history plus one, the version of the package, and the
  change added to the history. The second prompt is shown exactly when the first was
  accepted, and the operation commits one change when both were accepted and none
  otherwise.
\<close>

theorem delete_two_stage_confirmation:
  assumes args: "truthy secretPathOrString" "truthy keyIdentifier" "truthy searchArg"
    and load: "getInstance e secretPathOrString = ([], Inr (Output instance))"
    and located: "getSingleFromList e (secrets instance) (orEmpty searchArg) = (tr, Inr (Output (Some toDelete)))"
    and member: "toDelete \<in> set (secrets instance)"
    and tags: "getProp toDelete ''tags'' = Some (JArr tags)"
  shows "delete e secretPathOrString keyIdentifier searchArg =
     (if \<not> confirmAnswer e (areYouSureMessage (joinTags tags))
      then (tr @ [Confirm (areYouSureMessage (joinTags tags))],
            Inr (Failure (Message ''Delete cancelled'')))
      else if \<not> confirmAnswer e (areYouReallySureMessage (joinTags tags))
      then (tr @ [Confirm (areYouSureMessage (joinTags tags)),
                  Confirm (areYouReallySureMessage (joinTags tags))],
            Inr (Failure (Message ''Delete cancelled'')))
      else (tr @ [Confirm (areYouSureMessage (joinTags tags)),
                  Confirm (areYouReallySureMessage (joinTags tags)),
                  Change (''Delete '' @ sq @ joinTags tags @ sq)],
            Inr (Output (instance
                   \<lparr>secrets :=
                      takeWhile (\<lambda>item. getProp item ''id'' \<noteq> getProp toDelete ''id'') (secrets instance)
                      @ tl (dropWhile (\<lambda>item. getProp item ''id'' \<noteq> getProp toDelete ''id'')
                              (secrets instance)),
                    version := length (history instance) + 1,
                    doggoVersion := packageVersion e,
                    history := history instance @ [''Delete '' @ sq @ joinTags tags @ sq]\<rparr>))))
   \<and> (Confirm (areYouReallySureMessage (joinTags tags))
          \<in> set (fst (delete e secretPathOrString keyIdentifier searchArg))
        \<longleftrightarrow> confirmAnswer e (areYouSureMessage (joinTags tags)))
   \<and> changes (delete e secretPathOrString keyIdentifier searchArg) =
       (if confirmAnswer e (areYouSureMessage (joinTags tags))
           \<and> confirmAnswer e (areYouReallySureMessage (joinTags tags))
        then [Change (''Delete '' @ sq @ joinTags tags @ sq)] else [])"
proof -
  have tr: "tr = [] \<or> (\<exists>choices. tr = [Select choices])"
    using getSingleFromList_events[of e "secrets instance" "orEmpty searchArg"] located by simp
  have differ: "areYouSureMessage (joinTags tags) \<noteq> areYouReallySureMessage (joinTags tags)"
    by (simp add: areYouSureMessage_def areYouReallySureMessage_def)
  have found: "\<exists>item \<in> set (secrets instance). getProp item ''id'' = getProp toDelete ''id''"
    using member by blast
  note eq = delete_located[OF args load located tags automergeChange_delete[OF found]]
  show ?thesis
    unfolding changes_def eq using tr differ by auto
qed

text \<open>
  When the ids of the document are distinct, the entry that the change of delete
  removes is the located one.
\<close>

lemma remove_located_entry:
  assumes "distinct (map (\<lambda>item. getProp item ''id'') xs)" "toDelete \<in> set xs"
  shows "takeWhile (\<lambda>item. getProp item ''id'' \<noteq> getProp toDelete ''id'') xs
         @ tl (dropWhile (\<lambda>item. getProp item ''id'' \<noteq> getProp toDelete ''id'') xs)
         = remove1 toDelete xs"
  using assms
proof (induction xs)
  case Nil
  then show ?case by simp
next
  case (Cons x xs)
  show ?case
  proof (cases "x = toDelete")
    case True
    then show ?thesis by simp
  next
    case False
    then have "toDelete \<in> set xs" using Cons.prems by simp
    then have "getProp x ''id'' \<noteq> getProp toDelete ''id''"
      using Cons.prems(1) by (auto simp: image_iff)
    then show ?thesis
      using Cons False \<open>toDelete \<in> set xs\<close> by simp
  qed
qed

text \<open>
  The theorem at the example document, with a user who declines at once, one who
  accepts only the first prompt, and one who accepts both: the document returned then
  has no entry and the version 3.
\<close>

theorem delete_two_stage_confirmation_witness:
  "delete ((exampleEnv exampleDoc)\<lparr>confirmAnswer := (\<lambda>m. False)\<rparr>)
     (Some ''secrets.gpg'') (Some ''key'') (Some ''work'') =
     ([Confirm (areYouSureMessage ''email, work'')], Inr (Failure (Message ''Delete cancelled'')))
   \<and> delete ((exampleEnv exampleDoc)\<lparr>confirmAnswer := (\<lambda>m. m = areYouSureMessage ''email, work'')\<rparr>)
     (Some ''secrets.gpg'') (Some ''key'') (Some ''work'') =
     ([Confirm (areYouSureMessage ''email, work''), Confirm (areYouReallySureMessage ''email, work'')],
      Inr (Failure (Message ''Delete cancelled'')))
   \<and> delete (exampleEnv exampleDoc) (Some ''secrets.gpg'') (Some ''key'') (Some ''work'') =
     ([Confirm (areYouSureMessage ''email, work''), Confirm (areYouReallySureMessage ''email, work''),
       Change (''Delete '' @ sq @ ''email, work'' @ sq)],
      Inr (Output (exampleDoc\<lparr>secrets := [], version := 3, doggoVersion := ''1.0.1'',
                                history := history exampleDoc @ [''Delete '' @ sq @ ''email, work'' @ sq]\<rparr>)))
   \<and> changes (delete (exampleEnv exampleDoc) (Some ''secrets.gpg'') (Some ''key'') (Some ''work'')) =
     [Change (''Delete '' @ sq @ ''email, work'' @ sq)]"
proof -
  let ?no = "(exampleEnv exampleDoc)\<lparr>confirmAnswer := (\<lambda>m. False)\<rparr>"
  let ?once = "(exampleEnv exampleDoc)\<lparr>confirmAnswer := (\<lambda>m. m = areYouSureMessage ''email, work'')\<rparr>"
  let ?yes = "exampleEnv exampleDoc"
  have args: "truthy (Some ''secrets.gpg'')" "truthy (Some ''key'')" "truthy (Some ''work'')"
    by (simp_all add: truthy_def)
  have load: "getInstance ?no (Some ''secrets.gpg'') = ([], Inr (Output exampleDoc))"
    "getInstance ?once (Some ''secrets.gpg'') = ([], Inr (Output exampleDoc))"
    "getInstance ?yes (Some ''secrets.gpg'') = ([], Inr (Output exampleDoc))"
    by (rule getInstance_loaded; simp add: exampleEnv_def)+
  have located:
    "getSingleFromList ?no (secrets exampleDoc) (orEmpty (Some ''work'')) = ([], Inr (Output (Some exampleEntry)))"
    "getSingleFromList ?once (secrets exampleDoc) (orEmpty (Some ''work'')) = ([], Inr (Output (Some exampleEntry)))"
    "getSingleFromList ?yes (secrets exampleDoc) (orEmpty (Some ''work'')) = ([], Inr (Output (Some exampleEntry)))"
    by code_simp+
  have member: "exampleEntry \<in> set (secrets exampleDoc)"
    by (simp add: exampleDoc_def)
  have tags: "getProp exampleEntry ''tags'' = Some (JArr [''email'', ''work''])"
    by (simp add: getProp_def exampleEntry_def)
  have joined: "joinTags [''email'', ''work''] = ''email, work''"
    by (simp add: joinTags_def)
  have differ: "areYouReallySureMessage ''email, work'' \<noteq> areYouSureMessage ''email, work''"
    by (simp add: areYouSureMessage_def areYouReallySureMessage_def)
  have yes: "confirmAnswer ?yes m" for m
    by (simp add: exampleEnv_def)
  have pkg: "packageVersion ?yes = ''1.0.1''"
    by (simp add: exampleEnv_def)
  have secrets: "secrets exampleDoc = [exampleEntry]" "length (history exampleDoc) = 2"
    by (simp_all add: exampleDoc_def)
  show ?thesis
    using delete_two_stage_confirmation[OF args load(1) located(1) member tags]
      delete_two_stage_confirmation[OF args load(2) located(2) member tags]
      delete_two_stage_confirmation[OF args load(3) located(3) member tags]
      differ yes
    by (simp add: joined changes_def pkg secrets)
qed
section \<open>No match: a result, not an exception\<close>

text \<open>
  C2. When the search of an update or of a delete yields no candidate, the operation
  returns an ordinary result that says so (update as its \<^verbatim>\<open>output\<close>, delete as its
  \<^verbatim>\<open>error\<close>), nothing is thrown, no prompt is shown and no change is committed. A delete
  without a search argument does not search; it returns the validation error of its
  assertion, again as a result.
\<close>

theorem not_found_is_a_result:
  assumes "truthy secretPathOrString" "truthy keyIdentifier"
    and "getInstance e secretPathOrString = ([], Inr (Output instance))"
    and "fuse e (secrets instance) (orEmpty searchArg) = []"
  shows "update e secretPathOrString keyIdentifier searchArg =
           ([], Inr (Output (Text ''No result found for search'')))
    \<and> delete e secretPathOrString keyIdentifier searchArg =
         (if truthy searchArg then ([], Inr (Failure (Message ''No result found for search'')))
          else ([], Inr (Failure (Error (dq @ ''secretPathOrString, keyIdentifier, search'' @ dq
                                         @ '' are required to delete secret'')))))
    \<and> changes (update e secretPathOrString keyIdentifier searchArg) = []
    \<and> changes (delete e secretPathOrString keyIdentifier searchArg) = []"
proof -
  have u: "update e secretPathOrString keyIdentifier searchArg =
           ([], Inr (Output (Text ''No result found for search'')))"
    using assms by (rule update_not_found)
  have d: "delete e secretPathOrString keyIdentifier searchArg =
         (if truthy searchArg then ([], Inr (Failure (Message ''No result found for search'')))
          else ([], Inr (Failure (Error (dq @ ''secretPathOrString, keyIdentifier, search'' @ dq
                                         @ '' are required to delete secret'')))))"
  proof (cases "truthy searchArg")
    case True
    then show ?thesis using delete_not_found[OF assms(1,2) True assms(3,4)] by simp
  next
    case False
    then show ?thesis
      by (simp add: delete_def helpersAssert_fail)
  qed
  show ?thesis
    unfolding changes_def u d by simp
qed

text \<open>The theorem at the example document, searched for a tag it does not hold.\<close>

theorem not_found_is_a_result_witness:
  "update (exampleEnv exampleDoc) (Some ''secrets.gpg'') (Some ''key'') (Some ''bank'') =
     ([], Inr (Output (Text ''No result found for search'')))
   \<and> delete (exampleEnv exampleDoc) (Some ''secrets.gpg'') (Some ''key'') (Some ''bank'') =
     ([], Inr (Failure (Message ''No result found for search'')))"
proof -
  have args: "truthy (Some ''secrets.gpg'')" "truthy (Some ''key'')" "truthy (Some ''bank'')"
    by (simp_all add: truthy_def)
  have none: "fuse (exampleEnv exampleDoc) (secrets exampleDoc) (orEmpty (Some ''bank'')) = []"
    by code_simp
  show ?thesis
    using not_found_is_a_result[OF args(1,2) ex_load none] args(3) by simp
qed

section \<open>Update keeps the identity and the position\<close>

text \<open>
  C3. When an update locates an entry (an object whose tags are an array) that is the
  first entry of the document with its id, then whatever fields the user supplies to the
  form, also an \<^verbatim>\<open>id\<close>, the update commits a document whose secrets are those of the
  loaded document with the entry at the position of the located one replaced, and the
  replacement has the id of the located entry. The form offers every property except
  \<^verbatim>\<open>id\<close> and \<^verbatim>\<open>isDoggo\<close>, so its answer has no \<^verbatim>\<open>id\<close> that \<^verbatim>\<open>Object.assign\<close> could copy.
\<close>

theorem update_preserves_identity:
  assumes args: "truthy secretPathOrString" "truthy keyIdentifier"
    and load: "getInstance e secretPathOrString = ([], Inr (Output instance))"
    and located: "getSingleFromList e (secrets instance) (orEmpty searchArg) = (tr, Inr (Output (Some toUpdate)))"
    and obj: "isObject toUpdate"
    and tags: "getProp toUpdate ''tags'' = Some (JArr tags)"
    and pos: "i < length (secrets instance)" "secrets instance ! i = toUpdate"
    and first: "\<forall>j<i. getProp (secrets instance ! j) ''id'' \<noteq> getProp toUpdate ''id''"
  shows "\<exists>events d entry.
     update e secretPathOrString keyIdentifier searchArg = (events, Inr (Output (Doc d)))
     \<and> secrets d = (secrets instance)[i := entry]
     \<and> getProp entry ''id'' = getProp toUpdate ''id''"
proof -
  have same: "getProp (secrets instance ! i) ''id'' = getProp toUpdate ''id''"
    using pos(2) by simp
  from update_located[OF args load located obj tags pos(1) same first] obtain choices edited where
    ed: "''id'' \<notin> fst ` set edited"
    and up: "update e secretPathOrString keyIdentifier searchArg =
         (tr @ [Form (''Editing '' @ sq @ join '','' tags @ sq) choices,
                Change (''Update '' @ sq @ joinTags tags @ sq)],
          Inr (Output (Doc (instance
                 \<lparr>secrets := (secrets instance)[i := objectAssign (objectAssign [] toUpdate) edited],
                  version := length (history instance) + 1,
                  doggoVersion := packageVersion e,
                  updatedAt := dateNow e,
                  history := history instance @ [''Update '' @ sq @ joinTags tags @ sq]\<rparr>))))"
    by blast
  let ?entry = "objectAssign (objectAssign [] toUpdate) edited"
  have "getProp ?entry ''id'' = getProp toUpdate ''id''"
    using getProp_objectAssign_other[OF ed] getProp_objectAssign_copy[OF obj] by simp
  then show ?thesis using up by force
qed

text \<open>
  The theorem at the example document, with the user of the example, who supplies the
  id \<^verbatim>\<open>id-9\<close> and a new secret: the entry keeps the id \<^verbatim>\<open>id-1\<close>.
\<close>

theorem update_preserves_identity_witness:
  "map_of (formAnswer (exampleEnv exampleDoc) ''Editing'' []) ''id'' = Some ''id-9''
   \<and> getProp exampleEntry ''id'' = Some (JStr ''id-1'')
   \<and> map_sum id
        (map_result (\<lambda>out. case out of Doc d \<Rightarrow> map (\<lambda>entry. getProp entry ''id'') (secrets d)
                                      | Text t \<Rightarrow> []))
        (snd (update (exampleEnv exampleDoc) (Some ''secrets.gpg'') (Some ''key'') (Some ''work'')))
      = Inr (Output [Some (JStr ''id-1'')])"
proof -
  let ?e = "exampleEnv exampleDoc"
  have args: "truthy (Some ''secrets.gpg'')" "truthy (Some ''key'')"
    by (simp_all add: truthy_def)
  have located: "getSingleFromList ?e (secrets exampleDoc) (orEmpty (Some ''work'')) =
      ([], Inr (Output (Some exampleEntry)))"
    by code_simp
  have obj: "isObject exampleEntry"
    by (simp add: isObject_def exampleEntry_def)
  have tags: "getProp exampleEntry ''tags'' = Some (JArr [''email'', ''work''])"
    by (simp add: getProp_def exampleEntry_def)
  have secrets: "secrets exampleDoc = [exampleEntry]"
    by (simp add: exampleDoc_def)
  have pos: "0 < length (secrets exampleDoc)" "secrets exampleDoc ! 0 = exampleEntry"
    by (simp_all add: secrets)
  have first: "\<forall>j<0. getProp (secrets exampleDoc ! j) ''id'' \<noteq> getProp exampleEntry ''id''"
    by simp
  have ident: "getProp exampleEntry ''id'' = Some (JStr ''id-1'')"
    by (simp add: getProp_def exampleEntry_def)
  have supplied: "map_of (formAnswer ?e ''Editing'' []) ''id'' = Some ''id-9''"
    by (simp add: exampleEnv_def)
  from update_preserves_identity[OF args ex_load located obj tags pos first]
  obtain events d entry where
    "update ?e (Some ''secrets.gpg'') (Some ''key'') (Some ''work'') = (events, Inr (Output (Doc d)))"
    "secrets d = (secrets exampleDoc)[0 := entry]"
    "getProp entry ''id'' = getProp exampleEntry ''id''"
    by blast
  then show ?thesis
    using ident supplied by (simp add: secrets)
qed

section \<open>The version counts the history\<close>

text \<open>
  C4. Whenever add, delete or update returns a new document, its \<^verbatim>\<open>version\<close> is the
  length of the history of the document that was loaded, plus one. In a lineage (the
  initial document and what the three mutations commit on it, one after the other) the
  version of a document is the length of its history, so the new document is in the
  lineage again and its version is greater than the version of the loaded one.
\<close>

theorem version_counts_history:
  "(\<forall>d. snd (add e secretPathOrString keyIdentifier) = Inr (Output d) \<longrightarrow>
      (\<exists>localTag inst.
         getDecrypted e secretPathOrString = Inr localTag
         \<and> snd (getInstance e (Some localTag)) = Inr (Output inst)
         \<and> version d = length (history inst) + 1
         \<and> (lineage inst \<longrightarrow> lineage d \<and> version inst < version d)))
   \<and> (\<forall>d. snd (delete e secretPathOrString keyIdentifier searchArg) = Inr (Output d) \<longrightarrow>
      (\<exists>inst.
         snd (getInstance e secretPathOrString) = Inr (Output inst)
         \<and> version d = length (history inst) + 1
         \<and> (lineage inst \<longrightarrow> lineage d \<and> version inst < version d)))
   \<and> (\<forall>d. snd (update e secretPathOrString keyIdentifier searchArg) = Inr (Output (Doc d)) \<longrightarrow>
      (\<exists>inst.
         snd (getInstance e secretPathOrString) = Inr (Output inst)
         \<and> version d = length (history inst) + 1
         \<and> (lineage inst \<longrightarrow> lineage d \<and> version inst < version d)))"
proof (intro conjI allI impI)
  fix d assume "snd (add e secretPathOrString keyIdentifier) = Inr (Output d)"
  from add_Output[OF this] obtain localTag inst message where
    h: "getDecrypted e secretPathOrString = Inr localTag"
       "snd (getInstance e (Some localTag)) = Inr (Output inst)"
       "automergeChange inst message
              (addDraft inst (getTagsFromString (promptAnswer e ''Enter tags to find this secret later''))
                 (promptAnswer e ''Enter secret'') (uuidV4 e) (packageVersion e)) = Inr d"
    by blast
  have "version d = length (history inst) + 1"
    using automergeChange_add_fields(1)[OF h(3)] .
  moreover have "lineage inst \<longrightarrow> lineage d \<and> version inst < version d"
    using lineage_version[of inst] calculation lineage_add[OF _ h(3)] by auto
  ultimately show "\<exists>localTag inst.
         getDecrypted e secretPathOrString = Inr localTag
         \<and> snd (getInstance e (Some localTag)) = Inr (Output inst)
         \<and> version d = length (history inst) + 1
         \<and> (lineage inst \<longrightarrow> lineage d \<and> version inst < version d)"
    using h(1,2) by blast
next
  fix d assume "snd (delete e secretPathOrString keyIdentifier searchArg) = Inr (Output d)"
  from delete_Output[OF this] obtain inst message toDelete where
    h: "snd (getInstance e secretPathOrString) = Inr (Output inst)"
       "automergeChange inst message (deleteDraft inst toDelete (packageVersion e)) = Inr d"
    by blast
  have "version d = length (history inst) + 1"
    using automergeChange_delete_fields(1)[OF h(2)] .
  moreover have "lineage inst \<longrightarrow> lineage d \<and> version inst < version d"
    using lineage_version[of inst] calculation lineage_delete[OF _ h(2)] by auto
  ultimately show "\<exists>inst.
         snd (getInstance e secretPathOrString) = Inr (Output inst)
         \<and> version d = length (history inst) + 1
         \<and> (lineage inst \<longrightarrow> lineage d \<and> version inst < version d)"
    using h(1) by blast
next
  fix d assume "snd (update e secretPathOrString keyIdentifier searchArg) = Inr (Output (Doc d))"
  from update_Output[OF this] obtain inst message toUpdate edited where
    h: "snd (getInstance e secretPathOrString) = Inr (Output inst)"
       "automergeChange inst message
              (updateDraft inst toUpdate edited (packageVersion e) (dateNow e)) = Inr d"
    by blast
  have "version d = length (history inst) + 1"
    using automergeChange_update_fields(1)[OF h(2)] .
  moreover have "lineage inst \<longrightarrow> lineage d \<and> version inst < version d"
    using lineage_version[of inst] calculation lineage_update[OF _ h(2)] by auto
  ultimately show "\<exists>inst.
         snd (getInstance e secretPathOrString) = Inr (Output inst)
         \<and> version d = length (history inst) + 1
         \<and> (lineage inst \<longrightarrow> lineage d \<and> version inst < version d)"
    using h(1) by blast
qed

text \<open>
  The theorem at the example document, which is in a lineage and has version 2: add and
  delete give version 3.
\<close>

theorem version_counts_history_witness:
  "lineage exampleDoc \<and> version exampleDoc = 2 \<and> length (history exampleDoc) = 2
   \<and> map_sum id (map_result version)
        (snd (add (exampleEnv exampleDoc) (Some ''secrets.gpg'') (Some ''key''))) = Inr (Output 3)
   \<and> map_sum id (map_result version)
        (snd (delete (exampleEnv exampleDoc) (Some ''secrets.gpg'') (Some ''key'') (Some ''work'')))
       = Inr (Output 3)"
proof -
  let ?e = "exampleEnv exampleDoc"
  have "automergeChange (init ''doc-1'' ''1.0.0'' 100) (''Add '' @ sq @ ''email, work'' @ sq)
          (addDraft (init ''doc-1'' ''1.0.0'' 100) [''email'', ''work''] ''p@ss'' ''id-1'' ''1.0.0'')
        = Inr exampleDoc"
    by (simp add: automergeChange_add exampleDoc_def exampleEntry_def init_def)
  then have lin: "lineage exampleDoc"
    by (rule lineage_add[OF lineage_init])
  have v: "version exampleDoc = 2" "length (history exampleDoc) = 2"
    by (simp_all add: exampleDoc_def)
  have dec: "getDecrypted ?e (Some ''secrets.gpg'') = Inr ''secrets.gpg''"
    by (simp add: exampleEnv_def)
  obtain dAdd where dAdd: "snd (add ?e (Some ''secrets.gpg'') (Some ''key'')) = Inr (Output dAdd)"
    using add_loaded[OF dec _ _ ex_load, of "Some ''key''"] by (simp add: truthy_def)
  have located: "getSingleFromList ?e (secrets exampleDoc) (orEmpty (Some ''work'')) =
      ([], Inr (Output (Some exampleEntry)))"
    by code_simp
  have tags: "getProp exampleEntry ''tags'' = Some (JArr [''email'', ''work''])"
    by (simp add: getProp_def exampleEntry_def)
  have yes: "confirmAnswer ?e m" for m
    by (simp add: exampleEnv_def)
  have found: "\<exists>item \<in> set (secrets exampleDoc). getProp item ''id'' = getProp exampleEntry ''id''"
    by (simp add: exampleDoc_def)
  obtain dDel where dDel:
    "snd (delete ?e (Some ''secrets.gpg'') (Some ''key'') (Some ''work'')) = Inr (Output dDel)"
    using delete_located[OF _ _ _ ex_load located tags automergeChange_delete[OF found],
        where keyIdentifier = "Some ''key''"] yes
    by (simp add: truthy_def)
  note t = version_counts_history[of ?e "Some ''secrets.gpg''" "Some ''key''" "Some ''work''"]
  from t dAdd obtain localTag inst where
    a: "getDecrypted ?e (Some ''secrets.gpg'') = Inr localTag"
       "snd (getInstance ?e (Some localTag)) = Inr (Output inst)"
       "version dAdd = length (history inst) + 1"
    by blast
  have "inst = exampleDoc"
    using a(1,2) dec ex_load[of exampleDoc] by simp
  then have va: "version dAdd = 3"
    using a(3) v by simp
  from t dDel obtain inst' where
    b: "snd (getInstance ?e (Some ''secrets.gpg'')) = Inr (Output inst')"
       "version dDel = length (history inst') + 1"
    by blast
  have "inst' = exampleDoc"
    using b(1) ex_load[of exampleDoc] by simp
  then have vd: "version dDel = 3"
    using b(2) v by simp
  show ?thesis
    using lin v va vd by (simp add: dAdd dDel)
qed

section \<open>The time of the last update\<close>

text \<open>
  C5 against the code. The example document was last written at time 100 and the clock
  of the environment shows 200: the documents that add and delete return still have
  \<^verbatim>\<open>updatedAt\<close> 100; only update sets it to 200. List returns the entries and commits no
  change.
\<close>

theorem add_and_delete_keep_updatedAt:
  "updatedAt exampleDoc = 100
   \<and> dateNow (exampleEnv exampleDoc) = 200
   \<and> map_sum id (map_result updatedAt)
        (snd (add (exampleEnv exampleDoc) (Some ''secrets.gpg'') (Some ''key''))) = Inr (Output 100)
   \<and> map_sum id (map_result updatedAt)
        (snd (delete (exampleEnv exampleDoc) (Some ''secrets.gpg'') (Some ''key'') (Some ''work'')))
       = Inr (Output 100)
   \<and> map_sum id (map_result (\<lambda>out. case out of Doc d \<Rightarrow> Some (updatedAt d) | Text t \<Rightarrow> None))
        (snd (update (exampleEnv exampleDoc) (Some ''secrets.gpg'') (Some ''key'') (Some ''work'')))
       = Inr (Output (Some 200))
   \<and> list_secrets (exampleEnv exampleDoc) (Some ''secrets.gpg'') (Some ''key'') (Some ''work'')
       = ([], Inr (Output [exampleEntry]))"
  by code_simp

section \<open>Disambiguation\<close>

text \<open>
  The resolution step \<^verbatim>\<open>getSingleFromList\<close>, by the number of candidates the search
  ranks: with none it returns \<^verbatim>\<open>undefined\<close> without a prompt, and delete and update then
  report \<^verbatim>\<open>No result found for search\<close> without a change; with exactly one it returns
  this candidate without a prompt; with more than one, when the tags of every candidate
  are an array, it shows one select prompt whose choices are the joined tags of all
  candidates, in ranked order, and an entry it returns after the prompt is an entry of
  the list whose joined tags are the selected string.
\<close>

lemma disambiguation_on_arrays:
  assumes "fuse e list query = results"
  shows "(results = [] \<longrightarrow> getSingleFromList e list query = ([], Inr (Output None)))
   \<and> (\<forall>r. results = [r] \<longrightarrow> getSingleFromList e list query = ([], Inr (Output (Some r))))
   \<and> (\<forall>tagss. length results > 1
          \<and> map (\<lambda>r. getProp r ''tags'') results = map (\<lambda>tags. Some (JArr tags)) tagss \<longrightarrow>
        fst (getSingleFromList e list query) = [Select (map joinTags tagss)]
        \<and> (\<forall>x. snd (getSingleFromList e list query) = Inr (Output (Some x)) \<longrightarrow>
               x \<in> set list
               \<and> slugifyTags (getProp x ''tags'') = Inr (selectAnswer e (map joinTags tagss))))
   \<and> (\<forall>secretPathOrString keyIdentifier searchArg instance.
        results = [] \<and> list = secrets instance \<and> query = orEmpty searchArg
        \<and> getInstance e secretPathOrString = ([], Inr (Output instance))
        \<and> truthy secretPathOrString \<and> truthy keyIdentifier \<and> truthy searchArg \<longrightarrow>
        delete e secretPathOrString keyIdentifier searchArg =
          ([], Inr (Failure (Message ''No result found for search'')))
        \<and> update e secretPathOrString keyIdentifier searchArg =
          ([], Inr (Output (Text ''No result found for search''))))"
proof (intro conjI allI impI)
  assume "results = []"
  then show "getSingleFromList e list query = ([], Inr (Output None))"
    using assms by (simp add: getSingleFromList_none)
next
  fix r assume "results = [r]"
  then show "getSingleFromList e list query = ([], Inr (Output (Some r)))"
    using assms by (simp add: getSingleFromList_one)
next
  fix tagss
  assume h: "length results > 1
          \<and> map (\<lambda>r. getProp r ''tags'') results = map (\<lambda>tags. Some (JArr tags)) tagss"
  show "fst (getSingleFromList e list query) = [Select (map joinTags tagss)]"
    using getSingleFromList_many_typed[OF assms] h by simp
next
  fix tagss x
  assume h: "length results > 1
          \<and> map (\<lambda>r. getProp r ''tags'') results = map (\<lambda>tags. Some (JArr tags)) tagss"
    and x: "snd (getSingleFromList e list query) = Inr (Output (Some x))"
  have "findByJoinedTags (selectAnswer e (map joinTags tagss)) list = Inr (Some x)"
    using getSingleFromList_many_typed[OF assms] h x by (auto split: sum.splits)
  from findByJoinedTags_Some[OF this]
  show "x \<in> set list" "slugifyTags (getProp x ''tags'') = Inr (selectAnswer e (map joinTags tagss))"
    by simp_all
next
  fix p k s d
  assume h: "results = [] \<and> list = secrets d \<and> query = orEmpty s
        \<and> getInstance e p = ([], Inr (Output d)) \<and> truthy p \<and> truthy k \<and> truthy s"
  then have none: "fuse e (secrets d) (orEmpty s) = []"
    using assms by simp
  show "delete e p k s = ([], Inr (Failure (Message ''No result found for search'')))"
    using h none by (simp add: delete_not_found)
  show "update e p k s = ([], Inr (Output (Text ''No result found for search'')))"
    using h none by (simp add: update_not_found)
qed

text \<open>
  With more than one candidate, when the tags of a candidate are not an array, the step
  throws the \<^verbatim>\<open>TypeError\<close> of \<^verbatim>\<open>slugifyTags\<close> and shows no prompt.
\<close>

lemma getSingleFromList_many_untyped:
  assumes "fuse e list query = results" "length results > 1"
    and "mapThrowing (\<lambda>r. slugifyTags (getProp r ''tags'')) results = Inl err"
  shows "getSingleFromList e list query = ([], Inl err)"
  using getSingleFromList_many[OF assms(1,2)] assms(3) by simp

text \<open>
  C6 against the code. A document that the operations themselves produce: add on the
  example document, update of the added entry (the answer of the form is stored as it
  is, so the tags of the entry are now the string \<^verbatim>\<open>bank, home\<close>), and one more add of the
  tags \<^verbatim>\<open>bank\<close> and \<^verbatim>\<open>home\<close>. The search for \<^verbatim>\<open>bank\<close> then ranks two candidates. The
  resolution step presents no candidate and asks for no selection: joining the tags of
  the updated entry throws a \<^verbatim>\<open>TypeError\<close>, and delete and update end with this error.
\<close>

theorem disambiguation_throws_after_update:
  "snd (add (exampleEnv exampleDoc) (Some ''secrets.gpg'') (Some ''key'')) = Inr (Output addedDoc)
   \<and> snd (update (exampleEnv addedDoc) (Some ''secrets.gpg'') (Some ''key'') (Some ''bank''))
       = Inr (Output (Doc bankUpdatedDoc))
   \<and> snd (add ((exampleEnv bankUpdatedDoc)\<lparr>uuidV4 := ''id-3''\<rparr>) (Some ''secrets.gpg'') (Some ''key''))
       = Inr (Output mixedDoc)
   \<and> fuse (exampleEnv mixedDoc) (secrets mixedDoc) ''bank'' =
       [[(''tags'', JStr ''bank, home''), (''secret'', JStr ''s3cret''), (''id'', JStr ''id-2'')],
        [(''tags'', JArr [''bank'', ''home'']), (''secret'', JStr ''hunter2''), (''id'', JStr ''id-3'')]]
   \<and> getSingleFromList (exampleEnv mixedDoc) (secrets mixedDoc) ''bank'' =
       ([], Inl (TypeError ''tags.join is not a function''))
   \<and> delete (exampleEnv mixedDoc) (Some ''secrets.gpg'') (Some ''key'') (Some ''bank'') =
       ([], Inl (TypeError ''tags.join is not a function''))
   \<and> update (exampleEnv mixedDoc) (Some ''secrets.gpg'') (Some ''key'') (Some ''bank'') =
       ([], Inl (TypeError ''tags.join is not a function''))"
  by code_simp

section \<open>The round trip of joining and splitting\<close>

text \<open>
  C7, as stated, fails. The empty tag sequence joins to the empty string, which splits
  into one empty tag; and an empty tag between two others is lost, since the run of
  separators around it is one separator for the split.
\<close>

theorem tag_round_trip_counterexample:
  "list_all separatorFree []
   \<and> slugifyTags (Some (JArr [])) = Inr []
   \<and> getTagsFromString [] = [[]]
   \<and> getTagsFromString (joinTags []) \<noteq> []
   \<and> list_all separatorFree [''a'', [], ''b'']
   \<and> getTagsFromString (joinTags [''a'', [], ''b'']) = [''a'', ''b'']"
  by code_simp

text \<open>
  C7, amended. For a tag sequence whose tags contain no separator character, splitting
  the joined tags gives the sequence back exactly when the sequence is not empty and
  none of its tags other than the first and the last is empty.
\<close>

theorem tag_round_trip:
  assumes "list_all separatorFree T"
  shows "slugifyTags (Some (JArr T)) = Inr (joinTags T)
   \<and> (getTagsFromString (joinTags T) = T \<longleftrightarrow> T \<noteq> [] \<and> [] \<notin> set (butlast (tl T)))"
proof (intro conjI iffI)
  show "slugifyTags (Some (JArr T)) = Inr (joinTags T)"
    by simp
next
  assume eq: "getTagsFromString (joinTags T) = T"
  show "T \<noteq> []"
    using splitSeparators_not_Nil[of "[]" "joinTags T"] eq by (auto simp: getTagsFromString_def)
  show "[] \<notin> set (butlast (tl T))"
    using splitSeparators_interior[of "[]" "joinTags T"] eq by (simp add: getTagsFromString_def)
next
  assume "T \<noteq> [] \<and> [] \<notin> set (butlast (tl T))"
  then obtain t ts where T: "T = t # ts" and inner: "[] \<notin> set (butlast ts)"
    by (cases T) auto
  show "getTagsFromString (joinTags T) = T"
    using split_join[of t ts "[]"] assms inner
    unfolding T getTagsFromString_def joinTags_def by simp
qed

text \<open>The amended theorem at the tags of the example scenario.\<close>

theorem tag_round_trip_witness:
  "list_all separatorFree [''email'', ''work'']
   \<and> getTagsFromString (joinTags [''email'', ''work'']) = [''email'', ''work'']"
proof -
  have h: "list_all separatorFree [''email'', ''work'']"
    by code_simp
  show ?thesis
    using tag_round_trip[OF h] h by simp
qed

section \<open>The tags that add stores\<close>

text \<open>
  C8, as stated, fails. No step removes empty strings: an input that starts with a
  separator gives an empty first tag, an input that ends with one gives an empty last
  tag, the empty input gives one empty tag, and add stores such tags as they are.
\<close>

theorem tags_without_empties_counterexample:
  "getTagsFromString '' bank'' = [[], ''bank'']
   \<and> getTagsFromString ''bank, '' = [''bank'', []]
   \<and> getTagsFromString [] = [[]]
   \<and> map_sum id (map_result lastTags)
        (snd (add leadingBlankEnv (Some ''secrets.gpg'') (Some ''key'')))
      = Inr (Output (Some (JArr [[], ''bank''])))"
  by code_simp

text \<open>
  C8, amended. The normalisation splits the input at the runs of whitespace and commas:
  no tag of the result contains a separator, and no tag other than the first and the
  last is empty, so repeated separators give no empty tag. When the input is not empty
  and neither starts nor ends with a separator, no tag is empty at all. The entry that
  add appends holds exactly the tags of this split of the answer to the tag prompt.
\<close>

theorem tags_without_inner_empties:
  "list_all separatorFree (getTagsFromString str)
   \<and> [] \<notin> set (butlast (tl (getTagsFromString str)))
   \<and> (str \<noteq> [] \<and> \<not> isSeparator (hd str) \<and> \<not> isSeparator (last str) \<longrightarrow>
        [] \<notin> set (getTagsFromString str))
   \<and> (\<forall>e secretPathOrString keyIdentifier d.
        snd (add e secretPathOrString keyIdentifier) = Inr (Output d) \<longrightarrow>
        secrets d \<noteq> []
        \<and> lastTags d
            = Some (JArr (getTagsFromString (promptAnswer e ''Enter tags to find this secret later''))))"
proof (intro conjI allI impI)
  show "list_all separatorFree (getTagsFromString str)"
    unfolding getTagsFromString_def
    by (rule splitSeparators_separatorFree) (simp add: separatorFree_def)
  show "[] \<notin> set (butlast (tl (getTagsFromString str)))"
    unfolding getTagsFromString_def by (rule splitSeparators_interior)
next
  assume h: "str \<noteq> [] \<and> \<not> isSeparator (hd str) \<and> \<not> isSeparator (last str)"
  let ?xs = "splitSeparators [] str"
  have "[] \<notin> set (butlast ?xs)"
    using splitSeparators_inner[of "[]" str] h by simp
  moreover have "last ?xs \<noteq> []"
    using splitSeparators_last[of str "[]"] h by simp
  moreover have "?xs = butlast ?xs @ [last ?xs]"
    by (simp add: splitSeparators_not_Nil)
  ultimately have "[] \<notin> set ?xs"
    by (metis Un_iff empty_iff empty_set insert_iff list.simps(15) set_append)
  then show "[] \<notin> set (getTagsFromString str)"
    by (simp add: getTagsFromString_def)
next
  fix e p k d
  assume out: "snd (add e p k) = Inr (Output d)"
  from add_Output[OF out] obtain localTag inst message where
    "automergeChange inst message
           (addDraft inst (getTagsFromString (promptAnswer e ''Enter tags to find this secret later''))
              (promptAnswer e ''Enter secret'') (uuidV4 e) (packageVersion e)) = Inr d"
    by blast
  then have d: "d = inst
      \<lparr>secrets := secrets inst @
         [[(''tags'', JArr (getTagsFromString (promptAnswer e ''Enter tags to find this secret later''))),
           (''secret'', JStr (promptAnswer e ''Enter secret'')),
           (''id'', JStr (uuidV4 e))]],
       version := length (history inst) + 1,
       doggoVersion := packageVersion e,
       history := history inst @ [message]\<rparr>"
    by (simp add: automergeChange_add)
  show "secrets d \<noteq> []"
    unfolding d by simp
  show "lastTags d
            = Some (JArr (getTagsFromString (promptAnswer e ''Enter tags to find this secret later'')))"
    unfolding d by (simp add: lastTags_def getProp_def)
qed

text \<open>The amended theorem at the input \<^verbatim>\<open>bank, home\<close> and at the add of the example.\<close>

theorem tags_without_inner_empties_witness:
  "''bank, home'' \<noteq> [] \<and> \<not> isSeparator (hd ''bank, home'') \<and> \<not> isSeparator (last ''bank, home'')
   \<and> [] \<notin> set (getTagsFromString ''bank, home'')
   \<and> map_sum id (map_result lastTags)
        (snd (add (exampleEnv exampleDoc) (Some ''secrets.gpg'') (Some ''key'')))
      = Inr (Output (Some (JArr [''bank'', ''home''])))"
proof -
  let ?e = "exampleEnv exampleDoc"
  let ?d = "exampleDoc
      \<lparr>secrets := secrets exampleDoc @
         [[(''tags'', JArr (getTagsFromString (promptAnswer ?e ''Enter tags to find this secret later''))),
           (''secret'', JStr (promptAnswer ?e ''Enter secret'')),
           (''id'', JStr (uuidV4 ?e))]],
       version := length (history exampleDoc) + 1,
       doggoVersion := packageVersion ?e,
       history := history exampleDoc @
         [''Add '' @ sq
          @ joinTags (getTagsFromString (promptAnswer ?e ''Enter tags to find this secret later''))
          @ sq]\<rparr>"
  have h: "''bank, home'' \<noteq> [] \<and> \<not> isSeparator (hd ''bank, home'') \<and> \<not> isSeparator (last ''bank, home'')"
    by (simp add: isSeparator_def)
  have dec: "getDecrypted ?e (Some ''secrets.gpg'') = Inr ''secrets.gpg''"
    by (simp add: exampleEnv_def)
  have out: "snd (add ?e (Some ''secrets.gpg'') (Some ''key'')) = Inr (Output ?d)"
    using add_loaded[OF dec _ _ ex_load, of "Some ''key''"] by (simp add: truthy_def)
  have answer: "promptAnswer ?e ''Enter tags to find this secret later'' = ''bank, home''"
    by (simp add: exampleEnv_def)
  have split: "getTagsFromString ''bank, home'' = [''bank'', ''home'']"
    by code_simp
  note t = tags_without_inner_empties[of "''bank, home''"]
  have a: "[] \<notin> set (getTagsFromString ''bank, home'')"
    using t h by blast
  have b: "lastTags ?d
            = Some (JArr (getTagsFromString (promptAnswer ?e ''Enter tags to find this secret later'')))"
    using t out by blast
  show ?thesis
    using h a b unfolding out answer split by simp
qed

section \<open>Add followed by delete\<close>

text \<open>
  The change of delete for an entry with a fresh id, applied to the document that the
  change of add produced with this entry, gives back the secrets as they were.
\<close>

lemma add_then_delete_changes:
  assumes fresh: "\<forall>item \<in> set (secrets d). getProp item ''id'' \<noteq> Some (JStr uuid)"
    and added: "automergeChange d message (addDraft d tags secret uuid pkgVersion) = Inr d1"
  shows "\<exists>d2. automergeChange d1 message'
                (deleteDraft d1 [(''tags'', JArr tags), (''secret'', JStr secret), (''id'', JStr uuid)]
                   pkgVersion') = Inr d2
              \<and> secrets d2 = secrets d"
proof -
  let ?E = "[(''tags'', JArr tags), (''secret'', JStr secret), (''id'', JStr uuid)]"
  let ?q = "\<lambda>item. getProp item ''id'' \<noteq> getProp ?E ''id''"
  have id: "getProp ?E ''id'' = Some (JStr uuid)"
    by (simp add: getProp_def)
  have d1: "secrets d1 = secrets d @ [?E]"
    using added by (auto simp add: automergeChange_add)
  have found: "\<exists>item \<in> set (secrets d1). getProp item ''id'' = getProp ?E ''id''"
    unfolding d1 by simp
  have all: "\<forall>item \<in> set (secrets d). ?q item"
    using fresh id by simp
  have "takeWhile ?q (secrets d1) = secrets d"
    unfolding d1 using all by (simp add: takeWhile_append2)
  moreover have "dropWhile ?q (secrets d1) = [?E]"
    unfolding d1 using all by (simp add: dropWhile_append2)
  ultimately show ?thesis
    unfolding automergeChange_delete[OF found] by simp
qed

text \<open>
  C9. Let add return a document for a loaded document \<open>D\<close>, and let the id of the added
  entry be fresh: no entry of \<open>D\<close> has it. When a delete then loads the returned
  document, its search locates the added entry and the user confirms both prompts, the
  delete returns a document whose secrets are the secrets of \<open>D\<close>. (Its version is the
  length of the history plus one, two more than a lineage had at \<open>D\<close>.)
\<close>

theorem add_then_delete_restores_secrets:
  assumes added: "snd (add e secretPathOrString keyIdentifier) = Inr (Output d1)"
    and decrypted: "getDecrypted e secretPathOrString = Inr localTag"
    and loaded: "snd (getInstance e (Some localTag)) = Inr (Output D)"
    and fresh: "\<forall>item \<in> set (secrets D). getProp item ''id'' \<noteq> Some (JStr (uuidV4 e))"
    and args: "truthy secretPathOrString'" "truthy keyIdentifier'" "truthy searchArg"
    and loaded': "getInstance e' secretPathOrString' = ([], Inr (Output d1))"
    and located: "getSingleFromList e' (secrets d1) (orEmpty searchArg) =
                    (tr, Inr (Output (Some (last (secrets d1)))))"
    and sure: "confirmAnswer e' (areYouSureMessage
                 (joinTags (getTagsFromString (promptAnswer e ''Enter tags to find this secret later''))))"
    and reallySure: "confirmAnswer e' (areYouReallySureMessage
                 (joinTags (getTagsFromString (promptAnswer e ''Enter tags to find this secret later''))))"
  shows "\<exists>d2. snd (delete e' secretPathOrString' keyIdentifier' searchArg) = Inr (Output d2)
           \<and> secrets d2 = secrets D"
proof -
  let ?tags = "getTagsFromString (promptAnswer e ''Enter tags to find this secret later'')"
  let ?E = "[(''tags'', JArr ?tags), (''secret'', JStr (promptAnswer e ''Enter secret'')),
             (''id'', JStr (uuidV4 e))]"
  from add_Output[OF added] obtain localTag' inst message where
    h: "getDecrypted e secretPathOrString = Inr localTag'"
       "snd (getInstance e (Some localTag')) = Inr (Output inst)"
       "automergeChange inst message
          (addDraft inst ?tags (promptAnswer e ''Enter secret'') (uuidV4 e) (packageVersion e)) = Inr d1"
    by blast
  have inst: "inst = D"
    using h(1,2) decrypted loaded by simp
  have d1: "automergeChange D message
              (addDraft D ?tags (promptAnswer e ''Enter secret'') (uuidV4 e) (packageVersion e)) = Inr d1"
    using h(3) inst by simp
  have last: "last (secrets d1) = ?E"
    using d1 by (auto simp add: automergeChange_add)
  have tags: "getProp (last (secrets d1)) ''tags'' = Some (JArr ?tags)"
    unfolding last by (simp add: getProp_def)
  let ?m = "''Delete '' @ sq @ joinTags ?tags @ sq"
  from add_then_delete_changes[OF fresh d1, of ?m "packageVersion e'"] obtain d2 where
    change: "automergeChange d1 ?m (deleteDraft d1 (last (secrets d1)) (packageVersion e')) = Inr d2"
    and same: "secrets d2 = secrets D"
    unfolding last by blast
  have "snd (delete e' secretPathOrString' keyIdentifier' searchArg) = Inr (Output d2)"
    using delete_located[OF args loaded' located tags change] sure reallySure by simp
  then show ?thesis using same by blast
qed

text \<open>
  The theorem at the example: add on the example document, then delete on the result
  with the search \<^verbatim>\<open>bank\<close>.
\<close>

theorem add_then_delete_restores_secrets_witness:
  "snd (add (exampleEnv exampleDoc) (Some ''secrets.gpg'') (Some ''key'')) = Inr (Output addedDoc)
   \<and> map_sum id (map_result secrets)
        (snd (delete (exampleEnv addedDoc) (Some ''secrets.gpg'') (Some ''key'') (Some ''bank'')))
       = Inr (Output [exampleEntry])
   \<and> secrets exampleDoc = [exampleEntry]"
proof -
  let ?e = "exampleEnv exampleDoc"
  let ?e' = "exampleEnv addedDoc"
  have added: "snd (add ?e (Some ''secrets.gpg'') (Some ''key'')) = Inr (Output addedDoc)"
    by code_simp
  have decrypted: "getDecrypted ?e (Some ''secrets.gpg'') = Inr ''secrets.gpg''"
    by (simp add: exampleEnv_def)
  have loaded: "snd (getInstance ?e (Some ''secrets.gpg'')) = Inr (Output exampleDoc)"
    by (simp add: ex_load)
  have secrets: "secrets exampleDoc = [exampleEntry]"
    by (simp add: exampleDoc_def)
  have fresh: "\<forall>item \<in> set (secrets exampleDoc). getProp item ''id'' \<noteq> Some (JStr (uuidV4 ?e))"
    by (simp add: secrets exampleEntry_def getProp_def exampleEnv_def)
  have args: "truthy (Some ''secrets.gpg'')" "truthy (Some ''key'')" "truthy (Some ''bank'')"
    by (simp_all add: truthy_def)
  have located: "getSingleFromList ?e' (secrets addedDoc) (orEmpty (Some ''bank'')) =
      ([], Inr (Output (Some (last (secrets addedDoc)))))"
    by code_simp
  have yes: "confirmAnswer ?e' m" for m
    by (simp add: exampleEnv_def)
  from add_then_delete_restores_secrets[OF added decrypted loaded fresh args ex_load located yes yes]
  obtain d2 where
    "snd (delete ?e' (Some ''secrets.gpg'') (Some ''key'') (Some ''bank'')) = Inr (Output d2)"
    "secrets d2 = secrets exampleDoc"
    by blast
  then show ?thesis
    using added secrets by simp
qed

section \<open>The selection among several candidates\<close>

text \<open>
  C10, as stated, fails. First: the list holds two distinct entries with the same tag
  sequence and a third entry that shares their first tag; all three match the query.
  The user selects the third candidate, and the step returns the third entry, not the
  first of the two. Second: in the document that an update of the example entry and
  two adds of the same tags produce, the two added entries match the query and stand
  behind the updated entry,
  whose tags are a string; the step shows the selection and then throws a
  \<^verbatim>\<open>TypeError\<close>, since the lookup joins the tags of every entry of the list from its
  start.
\<close>

theorem selection_by_joined_tags_counterexample:
  "getProp entryA1 ''tags'' = getProp entryA2 ''tags''
   \<and> entryA1 \<noteq> entryA2
   \<and> fuse thirdChoiceEnv [entryA1, entryA2, entryC] ''a'' = [entryA1, entryA2, entryC]
   \<and> getSingleFromList thirdChoiceEnv [entryA1, entryA2, entryC] ''a'' =
       ([Select [''a, b'', ''a, b'', ''a, c'']], Inr (Output (Some entryC)))
   \<and> entryC \<noteq> entryA1
   \<and> snd (update (exampleEnv exampleDoc) (Some ''secrets.gpg'') (Some ''key'') (Some ''work''))
       = Inr (Output (Doc updatedDoc))
   \<and> snd (add (exampleEnv updatedDoc) (Some ''secrets.gpg'') (Some ''key'')) = Inr (Output updatedAddedDoc)
   \<and> snd (add ((exampleEnv updatedAddedDoc)\<lparr>uuidV4 := ''id-3''\<rparr>) (Some ''secrets.gpg'') (Some ''key''))
       = Inr (Output updatedAddedTwiceDoc)
   \<and> fuse (exampleEnv updatedAddedTwiceDoc) (secrets updatedAddedTwiceDoc) ''bank'' =
       [[(''tags'', JArr [''bank'', ''home'']), (''secret'', JStr ''hunter2''), (''id'', JStr ''id-2'')],
        [(''tags'', JArr [''bank'', ''home'']), (''secret'', JStr ''hunter2''), (''id'', JStr ''id-3'')]]
   \<and> getSingleFromList (exampleEnv updatedAddedTwiceDoc) (secrets updatedAddedTwiceDoc) ''bank'' =
       ([Select [''bank, home'', ''bank, home'']], Inl (TypeError ''tags.join is not a function''))"
  by code_simp

text \<open>
  C10, amended. Let the search rank more than one candidate, and let the tags of every
  entry of the list be an array of strings. Then the selected string is looked up in
  the full list: the step returns the first entry of the list whose joined tags equal
  the selected string. So when two entries at positions \<open>i < j\<close> have the same tag
  sequence and the user selects their joined tags (whichever of the two was meant), the
  step returns the entry at \<open>i\<close>, provided no entry before \<open>i\<close> has the same joined tags.
\<close>

theorem selection_by_joined_tags:
  assumes "fuse e list query = results" "length results > 1"
    and "map (\<lambda>r. getProp r ''tags'') results = map (\<lambda>tags. Some (JArr tags)) resultTags"
    and "map (\<lambda>item. getProp item ''tags'') list = map (\<lambda>tags. Some (JArr tags)) listTags"
  shows "getSingleFromList e list query =
     ([Select (map joinTags resultTags)],
      Inr (Output (find (\<lambda>item. slugifyTags (getProp item ''tags'')
                                    = Inr (selectAnswer e (map joinTags resultTags))) list)))
   \<and> (\<forall>i j. i < j \<and> j < length list \<and> listTags ! i = listTags ! j
          \<and> selectAnswer e (map joinTags resultTags) = joinTags (listTags ! i)
          \<and> (\<forall>k<i. joinTags (listTags ! k) \<noteq> joinTags (listTags ! i)) \<longrightarrow>
        snd (getSingleFromList e list query) = Inr (Output (Some (list ! i))))"
proof (intro conjI allI impI)
  show eq: "getSingleFromList e list query =
     ([Select (map joinTags resultTags)],
      Inr (Output (find (\<lambda>item. slugifyTags (getProp item ''tags'')
                                    = Inr (selectAnswer e (map joinTags resultTags))) list)))"
    using getSingleFromList_many_typed[OF assms(1,2,3)] findByJoinedTags_typed[OF assms(4)]
    by simp
  fix i j
  assume h: "i < j \<and> j < length list \<and> listTags ! i = listTags ! j
          \<and> selectAnswer e (map joinTags resultTags) = joinTags (listTags ! i)
          \<and> (\<forall>k<i. joinTags (listTags ! k) \<noteq> joinTags (listTags ! i))"
  have len: "length listTags = length list"
    using arg_cong[OF assms(4), of length] by simp
  have slug: "slugifyTags (getProp (list ! k) ''tags'') = Inr (joinTags (listTags ! k))"
    if "k < length list" for k
  proof -
    have "getProp (list ! k) ''tags'' = Some (JArr (listTags ! k))"
      using arg_cong[OF assms(4), of "\<lambda>xs. xs ! k"] that len by simp
    then show ?thesis by simp
  qed
  let ?P = "\<lambda>item. slugifyTags (getProp item ''tags'') = Inr (selectAnswer e (map joinTags resultTags))"
  have "find ?P list = Some (list ! i)"
    unfolding find_Some_iff
  proof (intro exI[of _ i] conjI allI impI)
    show "i < length list" using h by simp
    show "?P (list ! i)" using slug[of i] h by simp
    show "list ! i = list ! i" ..
    fix k assume "k < i"
    then show "\<not> ?P (list ! k)" using slug[of k] h by auto
  qed
  then show "snd (getSingleFromList e list query) = Inr (Output (Some (list ! i)))"
    using eq by simp
qed

text \<open>
  The amended theorem at the three entries of the counterexample, with the user who
  selects the first choice, the joined tags of the two equal entries.
\<close>

theorem selection_by_joined_tags_witness:
  "getSingleFromList (exampleEnv exampleDoc) [entryA1, entryA2, entryC] ''a'' =
     ([Select [''a, b'', ''a, b'', ''a, c'']], Inr (Output (Some entryA1)))"
proof -
  let ?e = "exampleEnv exampleDoc"
  let ?list = "[entryA1, entryA2, entryC]"
  let ?tags = "[[''a'', ''b''], [''a'', ''b''], [''a'', ''c'']]"
  have many: "fuse ?e ?list ''a'' = ?list"
    by code_simp
  have typed: "map (\<lambda>r. getProp r ''tags'') ?list = map (\<lambda>tags. Some (JArr tags)) ?tags"
    by (simp add: getProp_def entryA1_def entryA2_def entryC_def)
  have joined: "map joinTags ?tags = [''a, b'', ''a, b'', ''a, c'']"
    by (simp add: joinTags_def)
  have answer: "selectAnswer ?e (map joinTags ?tags) = ''a, b''"
    by (simp add: exampleEnv_def joinTags_def)
  have pick: "(0::nat) < 1 \<and> 1 < length ?list \<and> ?tags ! 0 = ?tags ! 1
      \<and> selectAnswer ?e (map joinTags ?tags) = joinTags (?tags ! 0)
      \<and> (\<forall>k<0. joinTags (?tags ! k) \<noteq> joinTags (?tags ! 0))"
    using answer by (simp add: joinTags_def)
  have len: "length ?list > 1"
    by simp
  note t = selection_by_joined_tags[OF many len typed typed]
  have eq: "fst (getSingleFromList ?e ?list ''a'') = [Select (map joinTags ?tags)]"
    using conjunct1[OF t] by simp
  have res: "snd (getSingleFromList ?e ?list ''a'') = Inr (Output (Some (?list ! 0)))"
    using conjunct2[OF t, rule_format, of 0 1] pick by simp
  show ?thesis
    using eq res unfolding joined by (simp add: prod_eq_iff)
qed

end
